theory Spec2Isabelle
  imports Main "HOL-Library.Char_ord" "HOL-Library.List_Lexorder"
begin

section \<open>Data model (pkg/orgbot/org.go, pkg/orgbot/github.go)\<close>

text \<open>
  Go strings are byte sequences; \<^typ>\<open>string\<close> is a list of 8-bit characters, compared
  bytewise and lexicographically as Go's \<open><\<close> on strings does.  Slices are lists (a nil
  slice and an empty slice are both \<open>[]\<close>).  \<open>GitHubTeamID\<close> is an \<open>int64\<close> that the
  code only copies and compares, so it is an \<^typ>\<open>int\<close>.  \<open>GitHubTeamRole\<close> and
  \<open>RepoPermission\<close> are Go string types with named constants.
\<close>

type_synonym GitHubTeamID = int
type_synonym GitHubTeamRole = string
type_synonym RepoPermission = string

definition RoleMaintainer :: GitHubTeamRole where
  "RoleMaintainer = ''maintainer''"

definition RoleMember :: GitHubTeamRole where
  "RoleMember = ''member''"

definition phonyTeamID :: GitHubTeamID where
  "phonyTeamID = -1"

definition RepoPermissionRead :: RepoPermission where
  "RepoPermissionRead = ''pull''"

definition RepoPermissionWrite :: RepoPermission where
  "RepoPermissionWrite = ''push''"

definition RepoPermissionAdmin :: RepoPermission where
  "RepoPermissionAdmin = ''admin''"

datatype Team = Team
  (Team_Name: string)
  (Team_Description: string)
  (Team_Previously: "string list")
  (Team_Maintainers: "string list")
  (Team_Members: "string list")
  (Team_RestrictMembers: "string list")
  (Team_Children: "Team list")

record Org =
  Org_Name :: string
  Org_Teams :: "Team list"

record TeamPermission =
  TeamName :: string
  Permission :: RepoPermission

record Repo =
  Repo_Name :: string
  Repo_Topics :: "string list"
  Repo_Teams :: "TeamPermission list"

record GitHubTeam =
  ID :: GitHubTeamID
  ParentID :: GitHubTeamID
  Name :: string
  Description :: string

record GitHubUser =
  Login :: string
  Email :: string

record GitHubStats =
  TeamsCreated :: int
  TeamsUpdated :: int
  TeamsDeleted :: int
  TeamMembershipsAdded :: int
  TeamMembershipsDeleted :: int

subsection \<open>Errors\<close>

text \<open>
  Go's \<open>error\<close> interface becomes a datatype.  The six rule violations are the types
  that implement the \<open>RuleError\<close> interface; a violation map is an association list
  from team name to the offending strings.  \<open>OtherError\<close> stands for every error made
  with \<open>fmt.Errorf\<close> or coming from a transport.
\<close>

type_synonym violations = "(string \<times> string list) list"

datatype RuleError =
    UnknownUsersError violations
  | TeamNamesUniqueError "string list"
  | UsersUniqueWithinTeamError violations
  | TeamNameLengthError "string list" nat
  | ActiveTeamDeletionsError violations
  | CrossOrgMembershipsError violations

datatype error =
    RuleErr RuleError
  | CompositeRuleError string "RuleError list"
  | GitHubUserNotFoundError string string string
  | MissingControlFileError "string list" string
  | UnexpectedFileError "string list" string
  | InvalidTeamDirNameError "string list" "string list" string
  | OtherError string

text \<open>The type assertion \<open>err.(RuleError)\<close>.\<close>

fun asRuleError :: "error \<Rightarrow> RuleError option" where
  "asRuleError (RuleErr re) = Some re"
| "asRuleError _ = None"

section \<open>The rule engine (ruleEngine.Run)\<close>

text \<open>
  A rule reads the desired org and may consult the forge, so it is a function of the org
  and of the state \<open>'d\<close> of whatever it consults, returning its error (\<open>None\<close> for
  \<open>nil\<close>) and the state it leaves.
\<close>

type_synonym 'd Rule = "Org \<Rightarrow> 'd \<Rightarrow> error option \<times> 'd"

text \<open>
  The loop of \<open>Run\<close>: \<open>ruleErrors\<close> is the accumulator; a non-RuleError failure returns
  at once.
\<close>

fun runRules :: "'d Rule list \<Rightarrow> Org \<Rightarrow> RuleError list \<Rightarrow> 'd \<Rightarrow> (error + RuleError list) \<times> 'd" where
  "runRules [] org ruleErrors d = (Inr ruleErrors, d)"
| "runRules (rule # rules) org ruleErrors d =
     (case rule org d of
        (None, d') \<Rightarrow> runRules rules org ruleErrors d'
      | (Some err, d') \<Rightarrow>
          (case asRuleError err of
             None \<Rightarrow> (Inl err, d')
           | Some ruleError \<Rightarrow> runRules rules org (ruleErrors @ [ruleError]) d'))"

definition Run :: "'d Rule list \<Rightarrow> Org \<Rightarrow> 'd \<Rightarrow> error option \<times> 'd" where
  "Run rules org d =
     (case runRules rules org [] d of
        (Inl err, d') \<Rightarrow> (Some err, d')
      | (Inr ruleErrors, d') \<Rightarrow>
          (if length ruleErrors > 0
           then (Some (CompositeRuleError (Org_Name org) ruleErrors), d')
           else (None, d')))"

text \<open>
  For stating what \<open>Run\<close> returns: the outcome of every registered rule, each invoked in
  registration order on the state its predecessor left, with no short-circuit.
\<close>

fun ruleOutcomes :: "'d Rule list \<Rightarrow> Org \<Rightarrow> 'd \<Rightarrow> error option list" where
  "ruleOutcomes [] org d = []"
| "ruleOutcomes (rule # rules) org d =
     (case rule org d of (r, d') \<Rightarrow> r # ruleOutcomes rules org d')"

text \<open>The state after invoking every rule of a list in order.\<close>

fun afterRules :: "'d Rule list \<Rightarrow> Org \<Rightarrow> 'd \<Rightarrow> 'd" where
  "afterRules [] org d = d"
| "afterRules (rule # rules) org d = afterRules rules org (snd (rule org d))"

text \<open>The RuleErrors among a list of outcomes, in order.\<close>

fun collectRuleErrors :: "error option list \<Rightarrow> RuleError list" where
  "collectRuleErrors [] = []"
| "collectRuleErrors (None # rs) = collectRuleErrors rs"
| "collectRuleErrors (Some err # rs) =
     (case asRuleError err of
        None \<Rightarrow> collectRuleErrors rs
      | Some ruleError \<Rightarrow> ruleError # collectRuleErrors rs)"

definition isRuleFailure :: "error option \<Rightarrow> bool" where
  "isRuleFailure r = (case r of None \<Rightarrow> False | Some err \<Rightarrow> asRuleError err \<noteq> None)"

definition isOtherFailure :: "error option \<Rightarrow> bool" where
  "isOtherFailure r = (case r of None \<Rightarrow> False | Some err \<Rightarrow> asRuleError err = None)"

subsection \<open>What Run returns\<close>

lemma runRules_no_other:
  "\<forall>r\<in>set (ruleOutcomes rules org d). \<not> isOtherFailure r \<Longrightarrow>
   runRules rules org acc d =
     (Inr (acc @ collectRuleErrors (ruleOutcomes rules org d)), afterRules rules org d)"
proof (induction rules arbitrary: acc d)
  case Nil
  then show ?case by simp
next
  case (Cons rule rules)
  obtain r d' where rd: "rule org d = (r, d')" by (cases "rule org d")
  from Cons.prems rd have rest: "\<forall>r\<in>set (ruleOutcomes rules org d'). \<not> isOtherFailure r"
    and here: "\<not> isOtherFailure r" by simp_all
  show ?case
  proof (cases r)
    case None
    with rd Cons.IH[OF rest] show ?thesis by simp
  next
    case (Some err)
    with here obtain re where "asRuleError err = Some re"
      by (auto simp: isOtherFailure_def)
    with Some rd Cons.IH[OF rest] show ?thesis by simp
  qed
qed

lemma afterRules_append:
  "afterRules (pre @ post) org d = afterRules post org (afterRules pre org d)"
  by (induction pre arbitrary: d) simp_all

lemma ruleOutcomes_append:
  "ruleOutcomes (pre @ post) org d =
     ruleOutcomes pre org d @ ruleOutcomes post org (afterRules pre org d)"
  by (induction pre arbitrary: d) (simp_all split: prod.splits)

lemma runRules_short_circuit:
  "\<forall>r\<in>set (ruleOutcomes pre org d). \<not> isOtherFailure r \<Longrightarrow>
   fst (rule org (afterRules pre org d)) = Some err \<Longrightarrow> asRuleError err = None \<Longrightarrow>
   runRules (pre @ rule # post) org acc d = (Inl err, afterRules (pre @ [rule]) org d)"
proof (induction pre arbitrary: acc d)
  case Nil
  then show ?case by (cases "rule org d") simp
next
  case (Cons p pre)
  obtain r d' where rd: "p org d = (r, d')" by (cases "p org d")
  from Cons.prems rd have rest: "\<forall>r\<in>set (ruleOutcomes pre org d'). \<not> isOtherFailure r"
    and here: "\<not> isOtherFailure r"
    and fails: "fst (rule org (afterRules pre org d')) = Some err" by simp_all
  show ?case
  proof (cases r)
    case None
    with rd Cons.IH[OF rest fails Cons.prems(3)] show ?thesis by simp
  next
    case (Some e)
    with here obtain re where "asRuleError e = Some re"
      by (auto simp: isOtherFailure_def)
    with Some rd Cons.IH[OF rest fails Cons.prems(3)] show ?thesis by simp
  qed
qed

lemma collect_empty_iff:
  "\<forall>r\<in>set rs. \<not> isOtherFailure r \<Longrightarrow> collectRuleErrors rs = [] \<longleftrightarrow> (\<forall>r\<in>set rs. r = None)"
proof (induction rs)
  case Nil
  then show ?case by simp
next
  case (Cons r rs)
  then show ?case
    by (cases r) (auto simp: isOtherFailure_def split: option.splits)
qed

lemma other_failure_split:
  "\<exists>r\<in>set (ruleOutcomes rules org d). isOtherFailure r \<Longrightarrow>
   \<exists>pre rule post err. rules = pre @ rule # post \<and>
     (\<forall>r\<in>set (ruleOutcomes pre org d). \<not> isOtherFailure r) \<and>
     fst (rule org (afterRules pre org d)) = Some err \<and> asRuleError err = None"
proof (induction rules arbitrary: d)
  case Nil
  then show ?case by simp
next
  case (Cons rule rules)
  obtain r d' where rd: "rule org d = (r, d')" by (cases "rule org d")
  show ?case
  proof (cases "isOtherFailure r")
    case True
    then obtain err where "r = Some err" "asRuleError err = None"
      by (auto simp: isOtherFailure_def split: option.splits)
    with rd have "rule # rules = [] @ rule # rules \<and>
        (\<forall>r\<in>set (ruleOutcomes [] org d). \<not> isOtherFailure r) \<and>
        fst (rule org (afterRules [] org d)) = Some err \<and> asRuleError err = None"
      by simp
    then show ?thesis by blast
  next
    case False
    with Cons.prems rd have "\<exists>r\<in>set (ruleOutcomes rules org d'). isOtherFailure r" by simp
    from Cons.IH[OF this] obtain pre rule' post err where
      s: "rules = pre @ rule' # post"
      "\<forall>r\<in>set (ruleOutcomes pre org d'). \<not> isOtherFailure r"
      "fst (rule' org (afterRules pre org d')) = Some err" "asRuleError err = None"
      by blast
    with rd False have "rule # rules = (rule # pre) @ rule' # post \<and>
        (\<forall>r\<in>set (ruleOutcomes (rule # pre) org d). \<not> isOtherFailure r) \<and>
        fst (rule' org (afterRules (rule # pre) org d)) = Some err \<and> asRuleError err = None"
      by simp
    then show ?thesis by blast
  qed
qed

text \<open>
  C4.  \<open>Run\<close> returns nil exactly when every registered rule returns nil.  When rules
  fail and every failure is a RuleError, \<open>Run\<close> returns the CompositeRuleError carrying
  the org name and exactly those RuleErrors in registration order, having invoked every
  rule.  A failure that is not a RuleError is returned as it is, and the state is the one
  that rule left: no later rule is invoked.
\<close>

theorem Run_rule_composition:
  "(fst (Run rules org d) = None \<longleftrightarrow> (\<forall>r\<in>set (ruleOutcomes rules org d). r = None))
   \<and> ((\<forall>r\<in>set (ruleOutcomes rules org d). \<not> isOtherFailure r) \<and>
        (\<exists>r\<in>set (ruleOutcomes rules org d). r \<noteq> None) \<longrightarrow>
        Run rules org d =
          (Some (CompositeRuleError (Org_Name org) (collectRuleErrors (ruleOutcomes rules org d))),
           afterRules rules org d))
   \<and> (\<forall>pre rule post err.
        rules = pre @ rule # post \<and>
        (\<forall>r\<in>set (ruleOutcomes pre org d). \<not> isOtherFailure r) \<and>
        fst (rule org (afterRules pre org d)) = Some err \<and> asRuleError err = None \<longrightarrow>
        Run rules org d = (Some err, afterRules (pre @ [rule]) org d))"
proof (intro conjI allI impI)
  show "fst (Run rules org d) = None \<longleftrightarrow> (\<forall>r\<in>set (ruleOutcomes rules org d). r = None)"
  proof (cases "\<exists>r\<in>set (ruleOutcomes rules org d). isOtherFailure r")
    case True
    from other_failure_split[OF True] obtain pre rule post err where
      s: "rules = pre @ rule # post"
      "\<forall>r\<in>set (ruleOutcomes pre org d). \<not> isOtherFailure r"
      "fst (rule org (afterRules pre org d)) = Some err" "asRuleError err = None"
      by blast
    then have "fst (Run rules org d) = Some err"
      by (simp add: Run_def runRules_short_circuit)
    moreover from True have "\<not> (\<forall>r\<in>set (ruleOutcomes rules org d). r = None)"
      by (auto simp: isOtherFailure_def split: option.splits)
    ultimately show ?thesis by simp
  next
    case False
    then have ok: "\<forall>r\<in>set (ruleOutcomes rules org d). \<not> isOtherFailure r" by simp
    show ?thesis
      using collect_empty_iff[OF ok] by (simp add: Run_def runRules_no_other[OF ok])
  qed
next
  assume a: "(\<forall>r\<in>set (ruleOutcomes rules org d). \<not> isOtherFailure r) \<and>
        (\<exists>r\<in>set (ruleOutcomes rules org d). r \<noteq> None)"
  then have ok: "\<forall>r\<in>set (ruleOutcomes rules org d). \<not> isOtherFailure r" by simp
  from a collect_empty_iff[OF ok] have "collectRuleErrors (ruleOutcomes rules org d) \<noteq> []"
    by blast
  then show "Run rules org d =
          (Some (CompositeRuleError (Org_Name org) (collectRuleErrors (ruleOutcomes rules org d))),
           afterRules rules org d)"
    by (simp add: Run_def runRules_no_other[OF ok])
next
  fix pre rule post err
  assume "rules = pre @ rule # post \<and>
        (\<forall>r\<in>set (ruleOutcomes pre org d). \<not> isOtherFailure r) \<and>
        fst (rule org (afterRules pre org d)) = Some err \<and> asRuleError err = None"
  then show "Run rules org d = (Some err, afterRules (pre @ [rule]) org d)"
    by (simp add: Run_def runRules_short_circuit)
qed

theorem Run_rule_composition_witness:
  "Run [\<lambda>org d. (None, Suc d),
        \<lambda>org d. (Some (RuleErr (TeamNamesUniqueError [''a''])), Suc d),
        \<lambda>org d. (Some (RuleErr (TeamNameLengthError [''b''] 35)), Suc d)]
       \<lparr>Org_Name = ''o'', Org_Teams = []\<rparr> (0::nat)
     = (Some (CompositeRuleError ''o'' [TeamNamesUniqueError [''a''], TeamNameLengthError [''b''] 35]), 3)
   \<and> Run [\<lambda>org d. (Some (RuleErr (TeamNamesUniqueError [''a''])), Suc d),
          \<lambda>org d. (Some (OtherError ''boom''), Suc d),
          \<lambda>org d. (None, Suc d)]
       \<lparr>Org_Name = ''o'', Org_Teams = []\<rparr> (0::nat)
     = (Some (OtherError ''boom''), 2)
   \<and> fst (Run [\<lambda>org d. (None, Suc d), \<lambda>org d. (None, Suc d)]
       \<lparr>Org_Name = ''o'', Org_Teams = []\<rparr> (0::nat)) = None"
proof -
  let ?org = "\<lparr>Org_Name = ''o'', Org_Teams = []\<rparr>"
  let ?ok = "(\<lambda>org d. (None, Suc d)) :: nat Rule"
  let ?u = "(\<lambda>org d. (Some (RuleErr (TeamNamesUniqueError [''a''])), Suc d)) :: nat Rule"
  let ?l = "(\<lambda>org d. (Some (RuleErr (TeamNameLengthError [''b''] 35)), Suc d)) :: nat Rule"
  let ?bad = "(\<lambda>org d. (Some (OtherError ''boom''), Suc d)) :: nat Rule"
  have b: "Run [?ok, ?u, ?l] ?org 0 =
      (Some (CompositeRuleError ''o'' [TeamNamesUniqueError [''a''], TeamNameLengthError [''b''] 35]), 3)"
    using Run_rule_composition[of "[?ok, ?u, ?l]" ?org 0]
    by (simp add: isOtherFailure_def numeral_3_eq_3)
  have c: "Run [?u, ?bad, ?ok] ?org 0 = (Some (OtherError ''boom''), 2)"
    using Run_rule_composition[of "[?u, ?bad, ?ok]" ?org 0,
        THEN conjunct2, THEN conjunct2, rule_format, of "[?u]" ?bad "[?ok]" "OtherError ''boom''"]
    by (simp add: isOtherFailure_def numeral_2_eq_2)
  have a: "fst (Run [?ok, ?ok] ?org 0) = None"
    using Run_rule_composition[of "[?ok, ?ok]" ?org 0] by simp
  from a b c show ?thesis by blast
qed

section \<open>The forge interface and its stats adapter (pkg/orgbot/github.go)\<close>

text \<open>
  \<open>GitHubService\<close> is a Go interface; an implementation is a record of its methods over
  the implementation's state \<open>'d\<close>.  Every method takes the state and returns its result
  with the state it leaves: a method returning \<open>(T, error)\<close> gives \<open>error + T\<close>, a method
  returning only \<open>error\<close> gives \<open>error option\<close>.  The two walk methods hand the repos to
  a callback one by one; here they return the repos they would hand over, and the caller
  iterates.  The context argument is not modelled.
\<close>

type_synonym ('a, 'd) returns = "'d \<Rightarrow> (error + 'a) \<times> 'd"
type_synonym 'd fails = "'d \<Rightarrow> error option \<times> 'd"

record 'd GitHubService =
  ListTeams :: "string \<Rightarrow> (GitHubTeam list, 'd) returns"
  ListTeamMembers :: "string \<Rightarrow> GitHubTeamID \<Rightarrow> GitHubTeamRole \<Rightarrow> (GitHubUser list, 'd) returns"
  CreateTeam :: "string \<Rightarrow> GitHubTeam \<Rightarrow> (GitHubTeam, 'd) returns"
  UpdateTeam :: "GitHubTeam \<Rightarrow> (GitHubTeam, 'd) returns"
  DeleteTeam :: "GitHubTeamID \<Rightarrow> 'd fails"
  AddTeamMembership :: "string \<Rightarrow> GitHubTeamID \<Rightarrow> string \<Rightarrow> GitHubTeamRole \<Rightarrow> 'd fails"
  DeleteTeamMembership :: "string \<Rightarrow> GitHubTeamID \<Rightarrow> string \<Rightarrow> GitHubTeamRole \<Rightarrow> 'd fails"
  AddTeamRepoPermission :: "string \<Rightarrow> string \<Rightarrow> GitHubTeamID \<Rightarrow> RepoPermission \<Rightarrow> 'd fails"
  DeleteTeamRepoPermission :: "string \<Rightarrow> string \<Rightarrow> GitHubTeamID \<Rightarrow> 'd fails"
  WalkRepos :: "string \<Rightarrow> (Repo list, 'd) returns"
  WalkReposByTeam :: "string \<Rightarrow> GitHubTeamID \<Rightarrow> (Repo list, 'd) returns"
  RepoByName :: "string \<Rightarrow> string \<Rightarrow> (Repo, 'd) returns"
  UpdateRepoTopics :: "string \<Rightarrow> string \<Rightarrow> string list \<Rightarrow> 'd fails"
  ListAdmins :: "string \<Rightarrow> (GitHubUser list, 'd) returns"
  UserByEmail :: "string \<Rightarrow> string \<Rightarrow> (GitHubUser, 'd) returns"
  UserByLogin :: "string \<Rightarrow> string \<Rightarrow> (GitHubUser, 'd) returns"

subsection \<open>statsService\<close>

text \<open>
  The adapter's state is the delegate's state and the \<open>stats\<close> field.  The mutex only
  guards the increment and is not modelled; the counters are Go \<open>int\<close>s, taken as
  unbounded.
\<close>

definition zeroStats :: GitHubStats where
  "zeroStats = \<lparr>TeamsCreated = 0, TeamsUpdated = 0, TeamsDeleted = 0,
                 TeamMembershipsAdded = 0, TeamMembershipsDeleted = 0\<rparr>"

text \<open>A method that only delegates.\<close>

definition delegateReturns :: "('a, 'd) returns \<Rightarrow> ('a, 'd \<times> GitHubStats) returns" where
  "delegateReturns m = (\<lambda>(d, stats). case m d of (r, d') \<Rightarrow> (r, (d', stats)))"

definition delegateFails :: "'d fails \<Rightarrow> ('d \<times> GitHubStats) fails" where
  "delegateFails m = (\<lambda>(d, stats). case m d of (r, d') \<Rightarrow> (r, (d', stats)))"

text \<open>A method that delegates and, when the delegate returned no error, bumps a counter.\<close>

definition countedReturns ::
  "(GitHubStats \<Rightarrow> GitHubStats) \<Rightarrow> ('a, 'd) returns \<Rightarrow> ('a, 'd \<times> GitHubStats) returns" where
  "countedReturns bump m =
     (\<lambda>(d, stats). case m d of
        (Inl err, d') \<Rightarrow> (Inl err, (d', stats))
      | (Inr v, d') \<Rightarrow> (Inr v, (d', bump stats)))"

definition countedFails ::
  "(GitHubStats \<Rightarrow> GitHubStats) \<Rightarrow> 'd fails \<Rightarrow> ('d \<times> GitHubStats) fails" where
  "countedFails bump m =
     (\<lambda>(d, stats). case m d of
        (Some err, d') \<Rightarrow> (Some err, (d', stats))
      | (None, d') \<Rightarrow> (None, (d', bump stats)))"

definition statsService :: "'d GitHubService \<Rightarrow> ('d \<times> GitHubStats) GitHubService" where
  "statsService delegate = \<lparr>
     ListTeams = (\<lambda>orgName. delegateReturns (ListTeams delegate orgName)),
     ListTeamMembers = (\<lambda>orgName teamID role.
        delegateReturns (ListTeamMembers delegate orgName teamID role)),
     CreateTeam = (\<lambda>orgName team.
        countedReturns (\<lambda>s. s\<lparr>TeamsCreated := TeamsCreated s + 1\<rparr>)
          (CreateTeam delegate orgName team)),
     UpdateTeam = (\<lambda>team.
        countedReturns (\<lambda>s. s\<lparr>TeamsUpdated := TeamsUpdated s + 1\<rparr>)
          (UpdateTeam delegate team)),
     DeleteTeam = (\<lambda>teamID.
        countedFails (\<lambda>s. s\<lparr>TeamsDeleted := TeamsDeleted s + 1\<rparr>)
          (DeleteTeam delegate teamID)),
     AddTeamMembership = (\<lambda>orgName teamID email role.
        countedFails (\<lambda>s. s\<lparr>TeamMembershipsAdded := TeamMembershipsAdded s + 1\<rparr>)
          (AddTeamMembership delegate orgName teamID email role)),
     DeleteTeamMembership = (\<lambda>orgName teamID email role.
        countedFails (\<lambda>s. s\<lparr>TeamMembershipsDeleted := TeamMembershipsDeleted s + 1\<rparr>)
          (DeleteTeamMembership delegate orgName teamID email role)),
     AddTeamRepoPermission = (\<lambda>orgName repoName teamID permission.
        delegateFails (AddTeamRepoPermission delegate orgName repoName teamID permission)),
     DeleteTeamRepoPermission = (\<lambda>orgName repoName teamID.
        delegateFails (DeleteTeamRepoPermission delegate orgName repoName teamID)),
     WalkRepos = (\<lambda>orgName. delegateReturns (WalkRepos delegate orgName)),
     WalkReposByTeam = (\<lambda>orgName teamID.
        delegateReturns (WalkReposByTeam delegate orgName teamID)),
     RepoByName = (\<lambda>orgName repoName. delegateReturns (RepoByName delegate orgName repoName)),
     UpdateRepoTopics = (\<lambda>orgName repoName topics.
        delegateFails (UpdateRepoTopics delegate orgName repoName topics)),
     ListAdmins = (\<lambda>orgName. delegateReturns (ListAdmins delegate orgName)),
     UserByEmail = (\<lambda>orgName email. delegateReturns (UserByEmail delegate orgName email)),
     UserByLogin = (\<lambda>orgName login. delegateReturns (UserByLogin delegate orgName login))\<rparr>"

text \<open>\<open>Stats\<close> and \<open>ZeroStats\<close> of the adapter.\<close>

definition Stats :: "'d \<times> GitHubStats \<Rightarrow> GitHubStats" where
  "Stats s = snd s"

definition ZeroStats :: "'d \<times> GitHubStats \<Rightarrow> 'd \<times> GitHubStats" where
  "ZeroStats s = (fst s, zeroStats)"

text \<open>\<open>NewStatsGitHubService\<close>: the adapter's initial state over a delegate in state \<open>d\<close>.\<close>

definition NewStatsGitHubService :: "'d \<Rightarrow> 'd \<times> GitHubStats" where
  "NewStatsGitHubService d = (d, zeroStats)"

subsection \<open>Sequences of calls\<close>

text \<open>
  To speak of every sequence of operations, a call of the interface is a value, and so is
  what it returned.
\<close>

datatype GitHubCall =
    CallListTeams string
  | CallListTeamMembers string GitHubTeamID GitHubTeamRole
  | CallCreateTeam string GitHubTeam
  | CallUpdateTeam GitHubTeam
  | CallDeleteTeam GitHubTeamID
  | CallAddTeamMembership string GitHubTeamID string GitHubTeamRole
  | CallDeleteTeamMembership string GitHubTeamID string GitHubTeamRole
  | CallAddTeamRepoPermission string string GitHubTeamID RepoPermission
  | CallDeleteTeamRepoPermission string string GitHubTeamID
  | CallWalkRepos string
  | CallWalkReposByTeam string GitHubTeamID
  | CallRepoByName string string
  | CallUpdateRepoTopics string string "string list"
  | CallListAdmins string
  | CallUserByEmail string string
  | CallUserByLogin string string

datatype GitHubReply =
    ReplyTeams "GitHubTeam list"
  | ReplyUsers "GitHubUser list"
  | ReplyTeam GitHubTeam
  | ReplyRepos "Repo list"
  | ReplyRepo Repo
  | ReplyUser GitHubUser
  | ReplyDone

definition replying :: "('a \<Rightarrow> GitHubReply) \<Rightarrow> (error + 'a) \<times> 'd \<Rightarrow> (error + GitHubReply) \<times> 'd" where
  "replying f r = (case r of (Inl err, d') \<Rightarrow> (Inl err, d') | (Inr v, d') \<Rightarrow> (Inr (f v), d'))"

definition replyingDone :: "error option \<times> 'd \<Rightarrow> (error + GitHubReply) \<times> 'd" where
  "replyingDone r = (case r of (Some err, d') \<Rightarrow> (Inl err, d') | (None, d') \<Rightarrow> (Inr ReplyDone, d'))"

fun invoke :: "'d GitHubService \<Rightarrow> GitHubCall \<Rightarrow> 'd \<Rightarrow> (error + GitHubReply) \<times> 'd" where
  "invoke s (CallListTeams orgName) d = replying ReplyTeams (ListTeams s orgName d)"
| "invoke s (CallListTeamMembers orgName teamID role) d =
     replying ReplyUsers (ListTeamMembers s orgName teamID role d)"
| "invoke s (CallCreateTeam orgName team) d = replying ReplyTeam (CreateTeam s orgName team d)"
| "invoke s (CallUpdateTeam team) d = replying ReplyTeam (UpdateTeam s team d)"
| "invoke s (CallDeleteTeam teamID) d = replyingDone (DeleteTeam s teamID d)"
| "invoke s (CallAddTeamMembership orgName teamID email role) d =
     replyingDone (AddTeamMembership s orgName teamID email role d)"
| "invoke s (CallDeleteTeamMembership orgName teamID email role) d =
     replyingDone (DeleteTeamMembership s orgName teamID email role d)"
| "invoke s (CallAddTeamRepoPermission orgName repoName teamID permission) d =
     replyingDone (AddTeamRepoPermission s orgName repoName teamID permission d)"
| "invoke s (CallDeleteTeamRepoPermission orgName repoName teamID) d =
     replyingDone (DeleteTeamRepoPermission s orgName repoName teamID d)"
| "invoke s (CallWalkRepos orgName) d = replying ReplyRepos (WalkRepos s orgName d)"
| "invoke s (CallWalkReposByTeam orgName teamID) d =
     replying ReplyRepos (WalkReposByTeam s orgName teamID d)"
| "invoke s (CallRepoByName orgName repoName) d = replying ReplyRepo (RepoByName s orgName repoName d)"
| "invoke s (CallUpdateRepoTopics orgName repoName topics) d =
     replyingDone (UpdateRepoTopics s orgName repoName topics d)"
| "invoke s (CallListAdmins orgName) d = replying ReplyUsers (ListAdmins s orgName d)"
| "invoke s (CallUserByEmail orgName email) d = replying ReplyUser (UserByEmail s orgName email d)"
| "invoke s (CallUserByLogin orgName login) d = replying ReplyUser (UserByLogin s orgName login d)"

text \<open>A sequence of calls, each on the state its predecessor left: what each returned.\<close>

fun invokeAll :: "'d GitHubService \<Rightarrow> GitHubCall list \<Rightarrow> 'd \<Rightarrow> (error + GitHubReply) list \<times> 'd" where
  "invokeAll s [] d = ([], d)"
| "invokeAll s (c # cs) d =
     (case invoke s c d of (r, d') \<Rightarrow>
        (case invokeAll s cs d' of (rs, d'') \<Rightarrow> (r # rs, d'')))"

text \<open>The five write kinds that the adapter counts.\<close>

datatype WriteKind = TeamCreate | TeamUpdate | TeamDelete | MembershipAdd | MembershipDelete

fun writeKind :: "GitHubCall \<Rightarrow> WriteKind option" where
  "writeKind (CallCreateTeam orgName team) = Some TeamCreate"
| "writeKind (CallUpdateTeam team) = Some TeamUpdate"
| "writeKind (CallDeleteTeam teamID) = Some TeamDelete"
| "writeKind (CallAddTeamMembership orgName teamID email role) = Some MembershipAdd"
| "writeKind (CallDeleteTeamMembership orgName teamID email role) = Some MembershipDelete"
| "writeKind _ = None"

fun counter :: "WriteKind \<Rightarrow> GitHubStats \<Rightarrow> int" where
  "counter TeamCreate = TeamsCreated"
| "counter TeamUpdate = TeamsUpdated"
| "counter TeamDelete = TeamsDeleted"
| "counter MembershipAdd = TeamMembershipsAdded"
| "counter MembershipDelete = TeamMembershipsDeleted"

fun returnedNoError :: "error + 'a \<Rightarrow> bool" where
  "returnedNoError (Inr v) = True"
| "returnedNoError (Inl err) = False"

text \<open>How many calls of kind \<open>k\<close> in a sequence returned without error.\<close>

fun succeededWrites :: "WriteKind \<Rightarrow> GitHubCall list \<Rightarrow> (error + GitHubReply) list \<Rightarrow> int" where
  "succeededWrites k (c # cs) (r # rs) =
     (if writeKind c = Some k \<and> returnedNoError r then 1 else 0) + succeededWrites k cs rs"
| "succeededWrites k _ _ = 0"

subsection \<open>The counters count the writes that succeeded\<close>

lemma invoke_statsService_result:
  "fst (invoke (statsService delegate) c (d, stats)) = fst (invoke delegate c d)"
  by (cases c)
    (auto simp: statsService_def delegateReturns_def delegateFails_def countedReturns_def
      countedFails_def replying_def replyingDone_def split: prod.splits sum.splits option.splits)

lemma invoke_statsService_delegate:
  "fst (snd (invoke (statsService delegate) c (d, stats))) = snd (invoke delegate c d)"
  by (cases c)
    (auto simp: statsService_def delegateReturns_def delegateFails_def countedReturns_def
      countedFails_def replying_def replyingDone_def split: prod.splits sum.splits option.splits)

lemma invoke_statsService_counter:
  "counter k (snd (snd (invoke (statsService delegate) c (d, stats)))) =
     counter k stats +
       (if writeKind c = Some k \<and> returnedNoError (fst (invoke delegate c d)) then 1 else 0)"
  by (cases c; cases k)
    (auto simp: statsService_def delegateReturns_def delegateFails_def countedReturns_def
      countedFails_def replying_def replyingDone_def split: prod.splits sum.splits option.splits)

lemma invoke_statsService_unchanged:
  "writeKind c = None \<or> \<not> returnedNoError (fst (invoke delegate c d)) \<Longrightarrow>
   snd (snd (invoke (statsService delegate) c (d, stats))) = stats"
  by (cases c)
    (auto simp: statsService_def delegateReturns_def delegateFails_def countedReturns_def
      countedFails_def replying_def replyingDone_def split: prod.splits sum.splits option.splits)

lemma invokeAll_statsService:
  "invokeAll (statsService delegate) calls (d, stats) = (rs, s) \<Longrightarrow>
   rs = fst (invokeAll delegate calls d) \<and> fst s = snd (invokeAll delegate calls d) \<and>
   (\<forall>k. counter k (snd s) = counter k stats + succeededWrites k calls rs)"
proof (induction calls arbitrary: d stats rs s)
  case Nil
  then show ?case by auto
next
  case (Cons c calls)
  obtain r d1 st1 where step: "invoke (statsService delegate) c (d, stats) = (r, (d1, st1))"
    by (metis prod.exhaust)
  obtain rs' s' where rest: "invokeAll (statsService delegate) calls (d1, st1) = (rs', s')"
    by (metis prod.exhaust)
  from Cons.prems step rest have rs: "rs = r # rs'" and s: "s = s'" by simp_all
  from step have r: "r = fst (invoke delegate c d)"
    using invoke_statsService_result[of delegate c d stats] by simp
  from step have d1: "d1 = snd (invoke delegate c d)"
    using invoke_statsService_delegate[of delegate c d stats] by simp
  from step have st1: "\<And>k. counter k st1 = counter k stats +
       (if writeKind c = Some k \<and> returnedNoError r then 1 else 0)"
    using invoke_statsService_counter[of _ delegate c d stats] r by simp
  note ih = Cons.IH[OF rest]
  have "rs = fst (invokeAll delegate (c # calls) d)"
    using rs r d1 ih by (simp split: prod.splits)
  moreover have "fst s = snd (invokeAll delegate (c # calls) d)"
    using s d1 ih by (simp split: prod.splits)
  moreover have "\<forall>k. counter k (snd s) = counter k stats + succeededWrites k (c # calls) rs"
    using s rs ih st1 by simp
  ultimately show ?case by blast
qed

lemma counter_zeroStats: "counter k zeroStats = 0"
  by (cases k) (simp_all add: zeroStats_def)

text \<open>
  C9.  Over any delegate and for any sequence of calls of the interface on a fresh stats
  adapter, the adapter returns what the delegate returns and leaves the delegate in the
  same state, and each of the five counters read by \<open>Stats\<close> is the number of calls of
  its write kind that returned without error.  A call that is not one of the five
  writes, or whose delegate call returned an error, leaves the counters as they were.
\<close>

theorem statsService_counts_successful_writes:
  "(invokeAll (statsService delegate) calls (NewStatsGitHubService d) = (rs, s) \<longrightarrow>
      rs = fst (invokeAll delegate calls d) \<and> fst s = snd (invokeAll delegate calls d) \<and>
      (\<forall>k. counter k (Stats s) = succeededWrites k calls rs))
   \<and> (writeKind c = None \<or> \<not> returnedNoError (fst (invoke delegate c d)) \<longrightarrow>
        Stats (snd (invoke (statsService delegate) c (d, stats))) = stats)"
proof (intro conjI impI)
  assume "invokeAll (statsService delegate) calls (NewStatsGitHubService d) = (rs, s)"
  then show "rs = fst (invokeAll delegate calls d)"
    and "fst s = snd (invokeAll delegate calls d)"
    and "\<forall>k. counter k (Stats s) = succeededWrites k calls rs"
    using invokeAll_statsService[of delegate calls d zeroStats rs s]
    by (simp_all add: NewStatsGitHubService_def Stats_def counter_zeroStats)
next
  assume "writeKind c = None \<or> \<not> returnedNoError (fst (invoke delegate c d))"
  then show "Stats (snd (invoke (statsService delegate) c (d, stats))) = stats"
    by (simp add: Stats_def invoke_statsService_unchanged)
qed

section \<open>Applying an org (ApplyOrg)\<close>

record ApplyOrgResult =
  Result_TeamsCreated :: int
  Result_TeamsUpdated :: int
  Result_TeamsDeleted :: int
  Result_MembershipsAdded :: int
  Result_MembershipsDeleted :: int

definition HasChanges :: "ApplyOrgResult \<Rightarrow> bool" where
  "HasChanges r \<longleftrightarrow>
     r \<noteq> \<lparr>Result_TeamsCreated = 0, Result_TeamsUpdated = 0, Result_TeamsDeleted = 0,
           Result_MembershipsAdded = 0, Result_MembershipsDeleted = 0\<rparr>"

text \<open>\<open>keptGitHubTeam\<close>: a GitHubTeam and whether it was freshly created.\<close>

record keptGitHubTeam =
  kept :: GitHubTeam
  created :: bool

text \<open>
  The platform: the forge service and the rule engine, both over the same state.  The
  rule engine is the interface method \<open>Run\<close>.
\<close>

record 'd Platform =
  GitHubService :: "'d GitHubService"
  RuleEngine :: "Org \<Rightarrow> 'd \<Rightarrow> error option \<times> 'd"

subsection \<open>findGitHubTeamFromDesired\<close>

text \<open>The inner loop: the first team of the slice with the given name.\<close>

fun findTeamNamed :: "GitHubTeam list \<Rightarrow> string \<Rightarrow> GitHubTeam option" where
  "findTeamNamed [] name = None"
| "findTeamNamed (t # teams) name = (if name = Name t then Some t else findTeamNamed teams name)"

text \<open>The outer loop over the desired name followed by the previous names.\<close>

fun findTeamByNames :: "GitHubTeam list \<Rightarrow> string list \<Rightarrow> GitHubTeam option" where
  "findTeamByNames teams [] = None"
| "findTeamByNames teams (name # names) =
     (case findTeamNamed teams name of
        Some t \<Rightarrow> Some t
      | None \<Rightarrow> findTeamByNames teams names)"

definition findGitHubTeamFromDesired :: "GitHubTeam list \<Rightarrow> Team \<Rightarrow> GitHubTeam option" where
  "findGitHubTeamFromDesired teams want =
     findTeamByNames teams (Team_Name want # Team_Previously want)"

subsection \<open>updateTeam and createTeam\<close>

definition wantParentID :: "GitHubTeam option \<Rightarrow> GitHubTeamID" where
  "wantParentID parent = (case parent of None \<Rightarrow> 0 | Some p \<Rightarrow> ID p)"

definition teamModified :: "GitHubTeam option \<Rightarrow> GitHubTeam \<Rightarrow> Team \<Rightarrow> bool" where
  "teamModified parent have want \<longleftrightarrow>
     ParentID have \<noteq> wantParentID parent \<or>
     Description have \<noteq> Team_Description want \<or>
     Name have \<noteq> Team_Name want"

definition updateTeam ::
  "'d GitHubService \<Rightarrow> GitHubTeam option \<Rightarrow> GitHubTeam \<Rightarrow> Team \<Rightarrow> (GitHubTeam, 'd) returns" where
  "updateTeam gitHubService parent have want d =
     (if teamModified parent have want
      then UpdateTeam gitHubService
             (have\<lparr>Name := Team_Name want, Description := Team_Description want,
                   ParentID := wantParentID parent\<rparr>) d
      else (Inr have, d))"

definition createTeam ::
  "'d GitHubService \<Rightarrow> string \<Rightarrow> GitHubTeam option \<Rightarrow> Team \<Rightarrow> (GitHubTeam, 'd) returns" where
  "createTeam gitHubService orgName parent want d =
     CreateTeam gitHubService orgName
       \<lparr>ID = 0, ParentID = wantParentID parent, Name = Team_Name want,
        Description = Team_Description want\<rparr> d"

subsection \<open>configureTeams\<close>

lemma size_Team_Children [termination_simp]:
  "size_list size (Team_Children want) < Suc (size want + n)"
  by (cases want) simp

text \<open>
  The closure \<open>process\<close>: \<open>keptTeams\<close> is the slice it appends to.  An existing team is
  updated, a missing one created; the result is kept and is the parent of the children.
\<close>

function process ::
  "'d GitHubService \<Rightarrow> string \<Rightarrow> GitHubTeam list \<Rightarrow> GitHubTeam option \<Rightarrow> Team list \<Rightarrow>
   keptGitHubTeam list \<Rightarrow> 'd \<Rightarrow> (error + keptGitHubTeam list) \<times> 'd" where
  "process gitHubService orgName haveTeams parent [] keptTeams d = (Inr keptTeams, d)"
| "process gitHubService orgName haveTeams parent (want # wantTeams) keptTeams d =
     (case (case findGitHubTeamFromDesired haveTeams want of
              Some have \<Rightarrow> (False, updateTeam gitHubService parent have want d)
            | None \<Rightarrow> (True, createTeam gitHubService orgName parent want d)) of
        (wasCreated, Inl err, d') \<Rightarrow> (Inl err, d')
      | (wasCreated, Inr t, d') \<Rightarrow>
          (case process gitHubService orgName haveTeams (Some t) (Team_Children want)
                  (keptTeams @ [\<lparr>kept = t, created = wasCreated\<rparr>]) d' of
             (Inl err, d'') \<Rightarrow> (Inl err, d'')
           | (Inr keptTeams', d'') \<Rightarrow>
               process gitHubService orgName haveTeams parent wantTeams keptTeams' d''))"
  by pat_completeness auto
termination
  by (relation "measure (\<lambda>(gitHubService, orgName, haveTeams, parent, wantTeams, keptTeams, d).
        size_list size wantTeams)") (auto simp: size_Team_Children)

text \<open>The loop deleting the teams whose ID was not retained.\<close>

fun deleteUnkept :: "'d GitHubService \<Rightarrow> GitHubTeamID list \<Rightarrow> GitHubTeam list \<Rightarrow> 'd fails" where
  "deleteUnkept gitHubService keptIDs [] d = (None, d)"
| "deleteUnkept gitHubService keptIDs (t # haveTeams) d =
     (if \<not> List.member keptIDs (ID t)
      then (case DeleteTeam gitHubService (ID t) d of
              (Some err, d') \<Rightarrow> (Some err, d')
            | (None, d') \<Rightarrow> deleteUnkept gitHubService keptIDs haveTeams d')
      else deleteUnkept gitHubService keptIDs haveTeams d)"

definition configureTeams ::
  "'d GitHubService \<Rightarrow> Org \<Rightarrow> GitHubTeam list \<Rightarrow> (keptGitHubTeam list, 'd) returns" where
  "configureTeams gitHubService org haveTeams d =
     (case process gitHubService (Org_Name org) haveTeams None (Org_Teams org) [] d of
        (Inl err, d') \<Rightarrow> (Inl err, d')
      | (Inr keptTeams, d') \<Rightarrow>
          (case deleteUnkept gitHubService (map (\<lambda>k. ID (kept k)) keptTeams) haveTeams d' of
             (Some err, d'') \<Rightarrow> (Inl err, d'')
           | (None, d'') \<Rightarrow> (Inr keptTeams, d'')))"

subsection \<open>promoteAdmins\<close>

definition isAdmin :: "GitHubUser list \<Rightarrow> string \<Rightarrow> bool" where
  "isAdmin admins email = List.member (map Email admins) email"

text \<open>
  \<open>shuffleAdmins\<close> and the closure \<open>process\<close> of promoteAdmins: in every team of the tree
  the admins among the members are appended to the maintainers and removed from the
  members.
\<close>

fun promoteTeam :: "GitHubUser list \<Rightarrow> Team \<Rightarrow> Team" where
  "promoteTeam admins (Team name description previously maintainers members restrictMembers children) =
     Team name description previously
       (maintainers @ filter (isAdmin admins) members)
       (filter (\<lambda>email. \<not> isAdmin admins email) members)
       restrictMembers
       (map (promoteTeam admins) children)"

text \<open>The org is mutated through its pointer; the model returns the org it leaves.\<close>

definition promoteAdmins :: "'d GitHubService \<Rightarrow> Org \<Rightarrow> 'd \<Rightarrow> error option \<times> Org \<times> 'd" where
  "promoteAdmins gitHubService org d =
     (case ListAdmins gitHubService (Org_Name org) d of
        (Inl err, d') \<Rightarrow> (Some err, org, d')
      | (Inr admins, d') \<Rightarrow>
          (None, org\<lparr>Org_Teams := map (promoteTeam admins) (Org_Teams org)\<rparr>, d'))"

subsection \<open>configureTeamMemberships\<close>

text \<open>\<open>teamsByName\<close>: the map is filled in depth-first order, a later team of the same name
  replacing an earlier one.\<close>

fun traverse :: "Team list \<Rightarrow> (string \<rightharpoonup> Team) \<Rightarrow> (string \<rightharpoonup> Team)" where
  "traverse [] m = m"
| "traverse (want # wantTeams) m =
     traverse wantTeams (traverse (Team_Children want) (m(Team_Name want \<mapsto> want)))"

definition teamsByName :: "Team list \<Rightarrow> (string \<rightharpoonup> Team)" where
  "teamsByName teams = traverse teams Map.empty"

definition gitHubUserEmails :: "GitHubUser list \<Rightarrow> string list" where
  "gitHubUserEmails users = map Email users"

text \<open>
  A loop issuing one membership call per email, stopping at the first error.
\<close>

fun eachEmail :: "(string \<Rightarrow> 'd fails) \<Rightarrow> string list \<Rightarrow> 'd fails" where
  "eachEmail call [] d = (None, d)"
| "eachEmail call (u # us) d =
     (case call u d of
        (Some err, d') \<Rightarrow> (Some err, d')
      | (None, d') \<Rightarrow> eachEmail call us d')"

text \<open>
  \<open>updateTeamMemberships\<close>.  The two sets are built from the slices; \<open>Difference\<close> and
  \<open>ToSlice\<close> give the emails of one set that are not in the other, each once.  Go leaves
  the order of \<open>ToSlice\<close> unspecified; here it is the order of first occurrence.
\<close>

definition difference :: "string list \<Rightarrow> string list \<Rightarrow> string list" where
  "difference xs ys = filter (\<lambda>x. \<not> List.member ys x) (remdups xs)"

definition updateTeamMemberships ::
  "'d GitHubService \<Rightarrow> string \<Rightarrow> GitHubTeam \<Rightarrow> string list \<Rightarrow> string list \<Rightarrow> GitHubTeamRole \<Rightarrow>
   'd fails" where
  "updateTeamMemberships gitHubService orgName t haveEmails wantEmails role d =
     (case eachEmail (\<lambda>u. AddTeamMembership gitHubService orgName (ID t) u role)
             (difference wantEmails haveEmails) d of
        (Some err, d') \<Rightarrow> (Some err, d')
      | (None, d') \<Rightarrow>
          eachEmail (\<lambda>u. DeleteTeamMembership gitHubService orgName (ID t) u role)
            (difference haveEmails wantEmails) d')"

text \<open>The current maintainers and members of a kept team: none for a freshly created one.\<close>

definition listHave ::
  "'d GitHubService \<Rightarrow> string \<Rightarrow> keptGitHubTeam \<Rightarrow> (GitHubUser list \<times> GitHubUser list, 'd) returns" where
  "listHave gitHubService orgName have d =
     (if \<not> created have
      then (case ListTeamMembers gitHubService orgName (ID (kept have)) RoleMaintainer d of
              (Inl err, d') \<Rightarrow> (Inl err, d')
            | (Inr haveMaintainers, d') \<Rightarrow>
                (case ListTeamMembers gitHubService orgName (ID (kept have)) RoleMember d' of
                   (Inl err, d'') \<Rightarrow> (Inl err, d'')
                 | (Inr haveMembers, d'') \<Rightarrow> (Inr (haveMaintainers, haveMembers), d'')))
      else (Inr ([], []), d))"

definition notDesired :: "string \<Rightarrow> error" where
  "notDesired name =
     OtherError (''expected team '' @ [CHR 0x27] @ name @ [CHR 0x27] @ '' to be in desired state'')"

fun membershipsLoop ::
  "'d GitHubService \<Rightarrow> string \<Rightarrow> (string \<rightharpoonup> Team) \<Rightarrow> keptGitHubTeam list \<Rightarrow> 'd fails" where
  "membershipsLoop gitHubService orgName wantTeamsByName [] d = (None, d)"
| "membershipsLoop gitHubService orgName wantTeamsByName (have # haveTeams) d =
     (case wantTeamsByName (Name (kept have)) of
        None \<Rightarrow> (Some (notDesired (Name (kept have))), d)
      | Some want \<Rightarrow>
          (case listHave gitHubService orgName have d of
             (Inl err, d1) \<Rightarrow> (Some err, d1)
           | (Inr (haveMaintainers, haveMembers), d1) \<Rightarrow>
               (case updateTeamMemberships gitHubService orgName (kept have)
                       (gitHubUserEmails haveMaintainers) (Team_Maintainers want) RoleMaintainer d1 of
                  (Some err, d2) \<Rightarrow> (Some err, d2)
                | (None, d2) \<Rightarrow>
                    (case updateTeamMemberships gitHubService orgName (kept have)
                            (gitHubUserEmails haveMembers) (Team_Members want) RoleMember d2 of
                       (Some err, d3) \<Rightarrow> (Some err, d3)
                     | (None, d3) \<Rightarrow>
                         membershipsLoop gitHubService orgName wantTeamsByName haveTeams d3))))"

definition configureTeamMemberships ::
  "'d GitHubService \<Rightarrow> Org \<Rightarrow> keptGitHubTeam list \<Rightarrow> 'd fails" where
  "configureTeamMemberships gitHubService org haveTeams d =
     membershipsLoop gitHubService (Org_Name org) (teamsByName (Org_Teams org)) haveTeams d"

subsection \<open>ApplyOrg\<close>

definition asResult :: "GitHubStats \<Rightarrow> ApplyOrgResult" where
  "asResult stats =
     \<lparr>Result_TeamsCreated = TeamsCreated stats,
      Result_TeamsUpdated = TeamsUpdated stats,
      Result_TeamsDeleted = TeamsDeleted stats,
      Result_MembershipsAdded = TeamMembershipsAdded stats,
      Result_MembershipsDeleted = TeamMembershipsDeleted stats\<rparr>"

text \<open>
  \<open>ApplyOrg\<close> returns its result or error, the org as the call leaves it (promoteAdmins
  writes through the pointer), and the state of the platform's service.
\<close>

definition ApplyOrg :: "'d Platform \<Rightarrow> Org \<Rightarrow> 'd \<Rightarrow> (error + ApplyOrgResult) \<times> Org \<times> 'd" where
  "ApplyOrg plat org d =
     (case RuleEngine plat org d of
        (Some err, d0) \<Rightarrow> (Inl err, org, d0)
      | (None, d0) \<Rightarrow>
          (let statsGitHubService = statsService (GitHubService plat) in
           case ListTeams statsGitHubService (Org_Name org) (NewStatsGitHubService d0) of
             (Inl err, s1) \<Rightarrow> (Inl err, org, fst s1)
           | (Inr haveTeams, s1) \<Rightarrow>
               (case configureTeams statsGitHubService org haveTeams s1 of
                  (Inl err, s2) \<Rightarrow> (Inl err, org, fst s2)
                | (Inr keptTeams, s2) \<Rightarrow>
                    (case promoteAdmins statsGitHubService org s2 of
                       (Some err, org', s3) \<Rightarrow> (Inl err, org', fst s3)
                     | (None, org', s3) \<Rightarrow>
                         (case configureTeamMemberships statsGitHubService org' keptTeams s3 of
                            (Some err, s4) \<Rightarrow> (Inl err, org', fst s4)
                          | (None, s4) \<Rightarrow> (Inr (asResult (Stats s4)), org', fst s4))))))"

section \<open>An in-memory forge\<close>

text \<open>
  Modelled from the spec: the forge behind the GitHubService interface (GitHub, reached by
  the concrete service over HTTP) is not part of the repository.  This is the forge as the
  spec's ForgePort and the interface's doc comments describe it, for one organisation:
  teams with an opaque id and a parent id, memberships by team, role and user, the org
  admins, the user directory, and the repos with their topics and team permissions.
  \<^item> \<open>ListTeams\<close>, \<open>ListAdmins\<close>, \<open>WalkRepos\<close> return what is stored;
    \<open>ListTeamMembers\<close> returns the users holding the given role in the given team.
  \<^item> \<open>CreateTeam\<close> stores the team under a fresh id and returns it with that id.
  \<^item> \<open>UpdateTeam\<close> replaces the team of the same id and returns the team it was given;
    \<open>DeleteTeam\<close> removes the team of that id and every team below it, with their
    memberships (the forge cascades children).  Both fail when no team has the id.
  \<^item> \<open>AddTeamMembership\<close> and \<open>DeleteTeamMembership\<close> resolve the user by email
    (failing with \<open>GitHubUserNotFoundError\<close>) and add the user to, or delete the user
    from, the given role of the given team.
  \<^item> \<open>forge_written\<close> records every write call received, in order; nothing reads it.
\<close>

record Forge =
  forge_teams :: "GitHubTeam list"
  forge_memberships :: "(GitHubTeamID \<times> GitHubTeamRole \<times> GitHubUser) list"
  forge_admins :: "GitHubUser list"
  forge_users :: "GitHubUser list"
  forge_repos :: "Repo list"
  forge_nextID :: GitHubTeamID
  forge_written :: "GitHubCall list"

definition notFound :: error where
  "notFound = OtherError ''404 Not Found''"

definition received :: "GitHubCall \<Rightarrow> Forge \<Rightarrow> Forge" where
  "received c f = f\<lparr>forge_written := forge_written f @ [c]\<rparr>"

definition teamExists :: "Forge \<Rightarrow> GitHubTeamID \<Rightarrow> bool" where
  "teamExists f teamID = List.member (map ID (forge_teams f)) teamID"

definition forgeUserByEmail :: "string \<Rightarrow> string \<Rightarrow> Forge \<Rightarrow> error + GitHubUser" where
  "forgeUserByEmail orgName email f =
     (case find (\<lambda>u. Email u = email) (forge_users f) of
        None \<Rightarrow> Inl (GitHubUserNotFoundError orgName email [])
      | Some u \<Rightarrow> Inr u)"

definition forgeUserByLogin :: "string \<Rightarrow> string \<Rightarrow> Forge \<Rightarrow> error + GitHubUser" where
  "forgeUserByLogin orgName login f =
     (case find (\<lambda>u. Login u = login) (forge_users f) of
        None \<Rightarrow> Inl (GitHubUserNotFoundError orgName [] login)
      | Some u \<Rightarrow> Inr u)"

definition forgeListTeamMembers ::
  "string \<Rightarrow> GitHubTeamID \<Rightarrow> GitHubTeamRole \<Rightarrow> (GitHubUser list, Forge) returns" where
  "forgeListTeamMembers orgName teamID role f =
     (Inr (map (\<lambda>(i, r, u). u)
             (filter (\<lambda>(i, r, u). i = teamID \<and> r = role) (forge_memberships f))), f)"

definition forgeCreateTeam :: "string \<Rightarrow> GitHubTeam \<Rightarrow> (GitHubTeam, Forge) returns" where
  "forgeCreateTeam orgName team f =
     (let newT = team\<lparr>ID := forge_nextID f\<rparr>
      in (Inr newT,
          (received (CallCreateTeam orgName team) f)
            \<lparr>forge_teams := forge_teams f @ [newT], forge_nextID := forge_nextID f + 1\<rparr>))"

definition forgeUpdateTeam :: "GitHubTeam \<Rightarrow> (GitHubTeam, Forge) returns" where
  "forgeUpdateTeam team f =
     (if teamExists f (ID team)
      then (Inr team,
            (received (CallUpdateTeam team) f)
              \<lparr>forge_teams := map (\<lambda>t. if ID t = ID team then team else t) (forge_teams f)\<rparr>)
      else (Inl notFound, received (CallUpdateTeam team) f))"

text \<open>The ids of the given teams and of every team below them: the children are added
  once for every stored team, which reaches the deepest one.\<close>

definition withChildren :: "Forge \<Rightarrow> GitHubTeamID list \<Rightarrow> GitHubTeamID list" where
  "withChildren f ids =
     remdups (ids @ map ID (filter (\<lambda>t. ParentID t \<in> set ids) (forge_teams f)))"

definition withDescendants :: "Forge \<Rightarrow> GitHubTeamID \<Rightarrow> GitHubTeamID list" where
  "withDescendants f teamID = ((withChildren f) ^^ length (forge_teams f)) [teamID]"

definition forgeDeleteTeam :: "GitHubTeamID \<Rightarrow> Forge fails" where
  "forgeDeleteTeam teamID f =
     (if teamExists f teamID
      then (None,
            (received (CallDeleteTeam teamID) f)
              \<lparr>forge_teams :=
                 filter (\<lambda>t. ID t \<notin> set (withDescendants f teamID)) (forge_teams f),
               forge_memberships :=
                 filter (\<lambda>(i, r, u). i \<notin> set (withDescendants f teamID))
                   (forge_memberships f)\<rparr>)
      else (Some notFound, received (CallDeleteTeam teamID) f))"

definition forgeAddTeamMembership ::
  "string \<Rightarrow> GitHubTeamID \<Rightarrow> string \<Rightarrow> GitHubTeamRole \<Rightarrow> Forge fails" where
  "forgeAddTeamMembership orgName teamID email role f =
     (let f' = received (CallAddTeamMembership orgName teamID email role) f
      in case forgeUserByEmail orgName email f of
           Inl err \<Rightarrow> (Some err, f')
         | Inr u \<Rightarrow>
             (if \<not> teamExists f teamID then (Some notFound, f')
              else (None,
                    f'\<lparr>forge_memberships :=
                         (if List.member (forge_memberships f) (teamID, role, u)
                          then forge_memberships f
                          else forge_memberships f @ [(teamID, role, u)])\<rparr>)))"

definition forgeDeleteTeamMembership ::
  "string \<Rightarrow> GitHubTeamID \<Rightarrow> string \<Rightarrow> GitHubTeamRole \<Rightarrow> Forge fails" where
  "forgeDeleteTeamMembership orgName teamID email role f =
     (let f' = received (CallDeleteTeamMembership orgName teamID email role) f
      in case forgeUserByEmail orgName email f of
           Inl err \<Rightarrow> (Some err, f')
         | Inr u \<Rightarrow>
             (None,
              f'\<lparr>forge_memberships :=
                   filter (\<lambda>(i, r, member). \<not> (i = teamID \<and> r = role \<and> Email member = email))
                     (forge_memberships f)\<rparr>))"

definition teamNameOf :: "Forge \<Rightarrow> GitHubTeamID \<Rightarrow> string option" where
  "teamNameOf f teamID = map_option Name (find (\<lambda>t. ID t = teamID) (forge_teams f))"

definition repoExists :: "Forge \<Rightarrow> string \<Rightarrow> bool" where
  "repoExists f repoName = List.member (map Repo_Name (forge_repos f)) repoName"

definition forgeAddTeamRepoPermission ::
  "string \<Rightarrow> string \<Rightarrow> GitHubTeamID \<Rightarrow> RepoPermission \<Rightarrow> Forge fails" where
  "forgeAddTeamRepoPermission orgName repoName teamID permission f =
     (let f' = received (CallAddTeamRepoPermission orgName repoName teamID permission) f
      in case teamNameOf f teamID of
           None \<Rightarrow> (Some notFound, f')
         | Some name \<Rightarrow>
             (if \<not> repoExists f repoName then (Some notFound, f')
              else (None,
                    f'\<lparr>forge_repos :=
                         map (\<lambda>r. if Repo_Name r = repoName
                                   then r\<lparr>Repo_Teams :=
                                          filter (\<lambda>tp. TeamName tp \<noteq> name) (Repo_Teams r)
                                          @ [\<lparr>TeamName = name, Permission = permission\<rparr>]\<rparr>
                                   else r)
                           (forge_repos f)\<rparr>)))"

definition forgeDeleteTeamRepoPermission ::
  "string \<Rightarrow> string \<Rightarrow> GitHubTeamID \<Rightarrow> Forge fails" where
  "forgeDeleteTeamRepoPermission orgName repoName teamID f =
     (let f' = received (CallDeleteTeamRepoPermission orgName repoName teamID) f
      in case teamNameOf f teamID of
           None \<Rightarrow> (Some notFound, f')
         | Some name \<Rightarrow>
             (if \<not> repoExists f repoName then (Some notFound, f')
              else (None,
                    f'\<lparr>forge_repos :=
                         map (\<lambda>r. if Repo_Name r = repoName
                                   then r\<lparr>Repo_Teams :=
                                          filter (\<lambda>tp. TeamName tp \<noteq> name) (Repo_Teams r)\<rparr>
                                   else r)
                           (forge_repos f)\<rparr>)))"

definition forgeWalkReposByTeam :: "string \<Rightarrow> GitHubTeamID \<Rightarrow> (Repo list, Forge) returns" where
  "forgeWalkReposByTeam orgName teamID f =
     (case teamNameOf f teamID of
        None \<Rightarrow> (Inl notFound, f)
      | Some name \<Rightarrow>
          (Inr (filter (\<lambda>r. List.member (map TeamName (Repo_Teams r)) name) (forge_repos f)), f))"

definition forgeRepoByName :: "string \<Rightarrow> string \<Rightarrow> (Repo, Forge) returns" where
  "forgeRepoByName orgName repoName f =
     (case find (\<lambda>r. Repo_Name r = repoName) (forge_repos f) of
        None \<Rightarrow> (Inl notFound, f)
      | Some r \<Rightarrow> (Inr r, f))"

definition forgeUpdateRepoTopics :: "string \<Rightarrow> string \<Rightarrow> string list \<Rightarrow> Forge fails" where
  "forgeUpdateRepoTopics orgName repoName topics f =
     (let f' = received (CallUpdateRepoTopics orgName repoName topics) f
      in if \<not> repoExists f repoName then (Some notFound, f')
         else (None,
               f'\<lparr>forge_repos :=
                    map (\<lambda>r. if Repo_Name r = repoName then r\<lparr>Repo_Topics := topics\<rparr> else r)
                      (forge_repos f)\<rparr>))"

definition forgeService :: "Forge GitHubService" where
  "forgeService = \<lparr>
     ListTeams = (\<lambda>orgName f. (Inr (forge_teams f), f)),
     ListTeamMembers = forgeListTeamMembers,
     CreateTeam = forgeCreateTeam,
     UpdateTeam = forgeUpdateTeam,
     DeleteTeam = forgeDeleteTeam,
     AddTeamMembership = forgeAddTeamMembership,
     DeleteTeamMembership = forgeDeleteTeamMembership,
     AddTeamRepoPermission = forgeAddTeamRepoPermission,
     DeleteTeamRepoPermission = forgeDeleteTeamRepoPermission,
     WalkRepos = (\<lambda>orgName f. (Inr (forge_repos f), f)),
     WalkReposByTeam = forgeWalkReposByTeam,
     RepoByName = forgeRepoByName,
     UpdateRepoTopics = forgeUpdateRepoTopics,
     ListAdmins = (\<lambda>orgName f. (Inr (forge_admins f), f)),
     UserByEmail = (\<lambda>orgName email f. (forgeUserByEmail orgName email f, f)),
     UserByLogin = (\<lambda>orgName login f. (forgeUserByLogin orgName login f, f))\<rparr>"

section \<open>The read-only adapter (readOnlyService)\<close>

text \<open>Reads go to the delegate; every write is a no-op that returns no error.\<close>

definition readOnlyService :: "'d GitHubService \<Rightarrow> 'd GitHubService" where
  "readOnlyService delegate = \<lparr>
     ListTeams = ListTeams delegate,
     ListTeamMembers = (\<lambda>orgName teamID role d.
        if teamID = phonyTeamID then (Inr [], d)
        else ListTeamMembers delegate orgName teamID role d),
     CreateTeam = (\<lambda>orgName team d. (Inr (team\<lparr>ID := phonyTeamID\<rparr>), d)),
     UpdateTeam = (\<lambda>team d. (Inr team, d)),
     DeleteTeam = (\<lambda>teamID d. (None, d)),
     AddTeamMembership = (\<lambda>orgName teamID email role d. (None, d)),
     DeleteTeamMembership = (\<lambda>orgName teamID email role d. (None, d)),
     AddTeamRepoPermission = (\<lambda>orgName repoName teamID permission d. (None, d)),
     DeleteTeamRepoPermission = (\<lambda>orgName repoName teamID d. (None, d)),
     WalkRepos = WalkRepos delegate,
     WalkReposByTeam = WalkReposByTeam delegate,
     RepoByName = RepoByName delegate,
     UpdateRepoTopics = (\<lambda>orgName repoName topics d. (None, d)),
     ListAdmins = ListAdmins delegate,
     UserByEmail = UserByEmail delegate,
     UserByLogin = UserByLogin delegate\<rparr>"

section \<open>The built-in rules\<close>

definition maxTeamNameLength :: nat where
  "maxTeamNameLength = 35"

text \<open>
  A violations map from team name to strings is an association list in order of first
  insertion (Go leaves the iteration order of a map unspecified; it only shows in the
  rendering of the error).  \<open>violations[k] = append(violations[k], v)\<close>:
\<close>

fun appendViolation :: "string \<Rightarrow> string \<Rightarrow> violations \<Rightarrow> violations" where
  "appendViolation k v [] = [(k, [v])]"
| "appendViolation k v ((k', vs) # m) =
     (if k = k' then (k', vs @ [v]) # m else (k', vs) # appendViolation k v m)"

text \<open>\<open>m[k] = v\<close> on an association list.\<close>

fun mapPut :: "'k \<Rightarrow> 'v \<Rightarrow> ('k \<times> 'v) list \<Rightarrow> ('k \<times> 'v) list" where
  "mapPut k v [] = [(k, v)]"
| "mapPut k v ((k', v') # m) = (if k = k' then (k', v) # m else (k', v') # mapPut k v m)"

definition mapDelete :: "'k \<Rightarrow> ('k \<times> 'v) list \<Rightarrow> ('k \<times> 'v) list" where
  "mapDelete k m = filter (\<lambda>(k', v). k' \<noteq> k) m"

fun isGitHubUserNotFoundError :: "error \<Rightarrow> bool" where
  "isGitHubUserNotFoundError (GitHubUserNotFoundError orgName email login) = True"
| "isGitHubUserNotFoundError _ = False"

subsection \<open>unknownUsersRule\<close>

fun unknownUsersEmails ::
  "'d GitHubService \<Rightarrow> string \<Rightarrow> string \<Rightarrow> string list \<Rightarrow> violations \<Rightarrow> (violations, 'd) returns" where
  "unknownUsersEmails gitHubService orgName teamName [] violations d = (Inr violations, d)"
| "unknownUsersEmails gitHubService orgName teamName (email # emails) violations d =
     (case UserByEmail gitHubService orgName email d of
        (Inr u, d') \<Rightarrow> unknownUsersEmails gitHubService orgName teamName emails violations d'
      | (Inl err, d') \<Rightarrow>
          (if \<not> isGitHubUserNotFoundError err then (Inl err, d')
           else unknownUsersEmails gitHubService orgName teamName emails
                  (appendViolation teamName email violations) d'))"

function unknownUsersRun ::
  "'d GitHubService \<Rightarrow> string \<Rightarrow> Team list \<Rightarrow> violations \<Rightarrow> (violations, 'd) returns" where
  "unknownUsersRun gitHubService orgName [] violations d = (Inr violations, d)"
| "unknownUsersRun gitHubService orgName (t # teams) violations d =
     (case unknownUsersEmails gitHubService orgName (Team_Name t)
             (Team_Maintainers t @ Team_Members t) violations d of
        (Inl err, d') \<Rightarrow> (Inl err, d')
      | (Inr violations', d') \<Rightarrow>
          (case unknownUsersRun gitHubService orgName (Team_Children t) violations' d' of
             (Inl err, d'') \<Rightarrow> (Inl err, d'')
           | (Inr violations'', d'') \<Rightarrow>
               unknownUsersRun gitHubService orgName teams violations'' d''))"
  by pat_completeness auto
termination
  by (relation "measure (\<lambda>(gitHubService, orgName, teams, violations, d). size_list size teams)")
     (auto simp: size_Team_Children)

definition unknownUsersRule :: "'d GitHubService \<Rightarrow> 'd Rule" where
  "unknownUsersRule gitHubService org d =
     (case unknownUsersRun gitHubService (Org_Name org) (Org_Teams org) [] d of
        (Inl err, d') \<Rightarrow> (Some err, d')
      | (Inr violations, d') \<Rightarrow>
          (if length violations > 0 then (Some (RuleErr (UnknownUsersError violations)), d')
           else (None, d')))"

subsection \<open>teamNamesUniqueRule\<close>

text \<open>The state of the closure: the set \<open>unique\<close> and the slice \<open>violations\<close>.\<close>

fun teamNamesUniqueRun :: "Team list \<Rightarrow> string list \<times> string list \<Rightarrow> string list \<times> string list" where
  "teamNamesUniqueRun [] acc = acc"
| "teamNamesUniqueRun (t # teams) (unique, violations) =
     teamNamesUniqueRun teams
       (teamNamesUniqueRun (Team_Children t)
          (if List.member unique (Team_Name t)
           then (unique, violations @ [Team_Name t])
           else (Team_Name t # unique, violations)))"

definition teamNamesUniqueRule :: "'d Rule" where
  "teamNamesUniqueRule org d =
     (case teamNamesUniqueRun (Org_Teams org) ([], []) of
        (unique, violations) \<Rightarrow>
          (if length violations > 0 then (Some (RuleErr (TeamNamesUniqueError violations)), d)
           else (None, d)))"

subsection \<open>usersUniqueWithinTeamRule\<close>

fun usersUniqueEmails :: "string \<Rightarrow> string list \<Rightarrow> string list \<Rightarrow> violations \<Rightarrow> violations" where
  "usersUniqueEmails teamName [] unique violations = violations"
| "usersUniqueEmails teamName (email # emails) unique violations =
     (if List.member unique email
      then usersUniqueEmails teamName emails unique (appendViolation teamName email violations)
      else usersUniqueEmails teamName emails (email # unique) violations)"

fun usersUniqueRun :: "Team list \<Rightarrow> violations \<Rightarrow> violations" where
  "usersUniqueRun [] violations = violations"
| "usersUniqueRun (t # teams) violations =
     usersUniqueRun teams
       (usersUniqueRun (Team_Children t)
          (usersUniqueEmails (Team_Name t) (Team_Maintainers t @ Team_Members t) [] violations))"

definition usersUniqueWithinTeamRule :: "'d Rule" where
  "usersUniqueWithinTeamRule org d =
     (let violations = usersUniqueRun (Org_Teams org) []
      in if length violations > 0 then (Some (RuleErr (UsersUniqueWithinTeamError violations)), d)
         else (None, d))"

subsection \<open>teamNameLengthRule\<close>

fun teamNameLengthRun :: "nat \<Rightarrow> Team list \<Rightarrow> string list \<Rightarrow> string list" where
  "teamNameLengthRun maxLength [] violations = violations"
| "teamNameLengthRun maxLength (t # teams) violations =
     teamNameLengthRun maxLength teams
       (teamNameLengthRun maxLength (Team_Children t)
          (if length (Team_Name t) > maxLength then violations @ [Team_Name t] else violations))"

definition teamNameLengthRule :: "nat \<Rightarrow> 'd Rule" where
  "teamNameLengthRule maxLength org d =
     (let violations = teamNameLengthRun maxLength (Org_Teams org) []
      in if length violations > 0
         then (Some (RuleErr (TeamNameLengthError violations maxLength)), d)
         else (None, d))"

subsection \<open>activeTeamDeletionsRule\<close>

text \<open>The closure \<open>process\<close>: every observed team matched by a desired team leaves the map.\<close>

fun unmatched ::
  "GitHubTeam list \<Rightarrow> Team list \<Rightarrow> (GitHubTeamID \<times> GitHubTeam) list \<Rightarrow> (GitHubTeamID \<times> GitHubTeam) list" where
  "unmatched haveTeams [] haveTeamsByID = haveTeamsByID"
| "unmatched haveTeams (t # teams) haveTeamsByID =
     unmatched haveTeams teams
       (unmatched haveTeams (Team_Children t)
          (case findGitHubTeamFromDesired haveTeams t of
             Some have \<Rightarrow> mapDelete (ID have) haveTeamsByID
           | None \<Rightarrow> haveTeamsByID))"

definition listTeamRepoNames ::
  "'d GitHubService \<Rightarrow> string \<Rightarrow> GitHubTeamID \<Rightarrow> (string list, 'd) returns" where
  "listTeamRepoNames gitHubService orgName teamID d =
     (case WalkReposByTeam gitHubService orgName teamID d of
        (Inl err, d') \<Rightarrow> (Inl err, d')
      | (Inr repos, d') \<Rightarrow> (Inr (map Repo_Name repos), d'))"

text \<open>The loop over the teams left in the map, in the order of the association list.\<close>

fun stillListed ::
  "'d GitHubService \<Rightarrow> string \<Rightarrow> (GitHubTeamID \<times> GitHubTeam) list \<Rightarrow> violations \<Rightarrow>
   (violations, 'd) returns" where
  "stillListed gitHubService orgName [] violations d = (Inr violations, d)"
| "stillListed gitHubService orgName ((teamID, have) # rest) violations d =
     (case listTeamRepoNames gitHubService orgName (ID have) d of
        (Inl err, d') \<Rightarrow> (Inl err, d')
      | (Inr repoNames, d') \<Rightarrow>
          stillListed gitHubService orgName rest
            (if length repoNames > 0 then mapPut (Name have) repoNames violations else violations)
            d')"

definition activeTeamDeletionsRule :: "'d GitHubService \<Rightarrow> 'd Rule" where
  "activeTeamDeletionsRule gitHubService org d =
     (case ListTeams gitHubService (Org_Name org) d of
        (Inl err, d') \<Rightarrow> (Some err, d')
      | (Inr haveTeams, d') \<Rightarrow>
          (let haveTeamsByID = fold (\<lambda>have m. mapPut (ID have) have m) haveTeams []
           in case stillListed gitHubService (Org_Name org)
                     (unmatched haveTeams (Org_Teams org) haveTeamsByID) [] d' of
                (Inl err, d'') \<Rightarrow> (Some err, d'')
              | (Inr violations, d'') \<Rightarrow>
                  (if length violations > 0
                   then (Some (RuleErr (ActiveTeamDeletionsError violations)), d'')
                   else (None, d''))))"

subsection \<open>crossOrgMembershipsRule\<close>

text \<open>
  The regular expressions are Go's \<open>regexp\<close> package, which is not part of the repository:
  \<open>regexpMatch pattern s\<close> stands for \<open>regexp.Compile(pattern)\<close> followed by
  \<open>MatchString(s)\<close>, \<open>Inl\<close> being the compile error.
\<close>

type_synonym regexp = "string \<Rightarrow> string \<Rightarrow> error + bool"

text \<open>The loop over the patterns of one layer: whether one matched, or the compile error.\<close>

fun matchedBy :: "regexp \<Rightarrow> string list \<Rightarrow> string \<Rightarrow> error + bool" where
  "matchedBy regexpMatch [] email = Inr False"
| "matchedBy regexpMatch (allowedPattern # restrictMembers) email =
     (case regexpMatch allowedPattern email of
        Inl err \<Rightarrow> Inl err
      | Inr True \<Rightarrow> Inr True
      | Inr False \<Rightarrow> matchedBy regexpMatch restrictMembers email)"

text \<open>The loop over the layers of the stack for one email.\<close>

fun checkLayers ::
  "regexp \<Rightarrow> string \<Rightarrow> string list list \<Rightarrow> string \<Rightarrow> violations \<Rightarrow> error + violations" where
  "checkLayers regexpMatch teamName [] email violations = Inr violations"
| "checkLayers regexpMatch teamName (restrictMembers # stack) email violations =
     (case matchedBy regexpMatch restrictMembers email of
        Inl err \<Rightarrow> Inl err
      | Inr matched \<Rightarrow>
          checkLayers regexpMatch teamName stack email
            (if \<not> matched then appendViolation teamName email violations else violations))"

fun checkEmails ::
  "regexp \<Rightarrow> string \<Rightarrow> string list list \<Rightarrow> string list \<Rightarrow> violations \<Rightarrow> error + violations" where
  "checkEmails regexpMatch teamName stack [] violations = Inr violations"
| "checkEmails regexpMatch teamName stack (email # emails) violations =
     (case checkLayers regexpMatch teamName stack email violations of
        Inl err \<Rightarrow> Inl err
      | Inr violations' \<Rightarrow> checkEmails regexpMatch teamName stack emails violations')"

text \<open>
  The closure \<open>run\<close>.  The stack is nil only for the top-level call, and every child stack
  has at least one layer, so \<open>restrictMembersStack != nil\<close> is \<open>stack \<noteq> []\<close>.
\<close>

function crossOrgRun ::
  "regexp \<Rightarrow> Team list \<Rightarrow> string list list \<Rightarrow> violations \<Rightarrow> error + violations" where
  "crossOrgRun regexpMatch [] restrictMembersStack violations = Inr violations"
| "crossOrgRun regexpMatch (t # teams) restrictMembersStack violations =
     (let restrictMembers =
            (if restrictMembersStack \<noteq> [] \<and> length (Team_RestrictMembers t) = 0
             then [''.*''] else Team_RestrictMembers t);
          childRestrictMembersStack = restrictMembersStack @ [restrictMembers]
      in case checkEmails regexpMatch (Team_Name t) childRestrictMembersStack
                (Team_Maintainers t @ Team_Members t) violations of
           Inl err \<Rightarrow> Inl err
         | Inr violations' \<Rightarrow>
             (case crossOrgRun regexpMatch (Team_Children t) childRestrictMembersStack violations' of
                Inl err \<Rightarrow> Inl err
              | Inr violations'' \<Rightarrow>
                  crossOrgRun regexpMatch teams restrictMembersStack violations''))"
  by pat_completeness auto
termination
  by (relation "measure (\<lambda>(regexpMatch, teams, stack, violations). size_list size teams)")
     (auto simp: size_Team_Children)

definition crossOrgMembershipsRule :: "regexp \<Rightarrow> 'd Rule" where
  "crossOrgMembershipsRule regexpMatch org d =
     (case crossOrgRun regexpMatch (Org_Teams org) [] [] of
        Inl err \<Rightarrow> (Some err, d)
      | Inr violations \<Rightarrow>
          (if length violations > 0 then (Some (RuleErr (CrossOrgMembershipsError violations)), d)
           else (None, d)))"

subsection \<open>NewRuleEngine and NewPlatform\<close>

definition NewRuleEngine :: "regexp \<Rightarrow> 'd GitHubService \<Rightarrow> 'd Rule list" where
  "NewRuleEngine regexpMatch gitHubService =
     [unknownUsersRule gitHubService,
      teamNamesUniqueRule,
      usersUniqueWithinTeamRule,
      teamNameLengthRule maxTeamNameLength,
      activeTeamDeletionsRule gitHubService,
      crossOrgMembershipsRule regexpMatch]"

text \<open>\<open>NewPlatform\<close> (pkg/cmd/platform.go): the rule engine consults the service through
  the read-only adapter.\<close>

definition NewPlatform :: "regexp \<Rightarrow> 'd GitHubService \<Rightarrow> 'd Platform" where
  "NewPlatform regexpMatch gitHubService =
     \<lparr>GitHubService = gitHubService,
      RuleEngine = Run (NewRuleEngine regexpMatch (readOnlyService gitHubService))\<rparr>"

section \<open>A failing rule engine writes nothing\<close>

lemma snd_is: "snd p = d \<Longrightarrow> \<exists>r. p = (r, d)"
  by (cases p) simp

lemma readOnly_forge_UserByEmail:
  "snd (UserByEmail (readOnlyService forgeService) orgName email f) = f"
  by (simp add: readOnlyService_def forgeService_def)

lemma unknownUsersEmails_forge:
  "snd (unknownUsersEmails (readOnlyService forgeService) orgName teamName emails violations f) = f"
proof (induction emails arbitrary: violations)
  case Nil
  then show ?case by simp
next
  case (Cons email emails)
  obtain r where r: "UserByEmail (readOnlyService forgeService) orgName email f = (r, f)"
    using readOnly_forge_UserByEmail[of orgName email f]
    by (cases "UserByEmail (readOnlyService forgeService) orgName email f") simp
  show ?case using Cons.IH r by (cases r) simp_all
qed

lemma unknownUsersRun_forge:
  "snd (unknownUsersRun (readOnlyService forgeService) orgName teams violations f) = f"
proof (induction teams arbitrary: violations rule: measure_induct_rule[where f = "size_list size"])
  case (less teams)
  show ?case
  proof (cases teams)
    case Nil
    then show ?thesis by simp
  next
    case (Cons t rest)
    let ?s = "readOnlyService forgeService"
    obtain r1 where r1: "unknownUsersEmails ?s orgName (Team_Name t)
        (Team_Maintainers t @ Team_Members t) violations f = (r1, f)"
      using snd_is[OF unknownUsersEmails_forge] by blast
    show ?thesis
    proof (cases r1)
      case (Inl err)
      with r1 Cons show ?thesis by simp
    next
      case (Inr v1)
      have c: "size_list size (Team_Children t) < size_list size teams"
        using Cons by (simp add: size_Team_Children)
      obtain r2 where r2: "unknownUsersRun ?s orgName (Team_Children t) v1 f = (r2, f)"
        using snd_is[OF less[OF c, of v1]] by blast
      show ?thesis
      proof (cases r2)
        case (Inl err)
        with r1 r2 Inr Cons show ?thesis by simp
      next
        case (Inr v2)
        have "size_list size rest < size_list size teams" using Cons by simp
        from less[OF this, of v2] r1 r2 \<open>r1 = Inr v1\<close> Inr Cons show ?thesis by simp
      qed
    qed
  qed
qed

lemma unknownUsersRule_forge:
  "snd (unknownUsersRule (readOnlyService forgeService) org f) = f"
  using unknownUsersRun_forge[of "Org_Name org" "Org_Teams org" "[]" f]
  by (auto simp: unknownUsersRule_def split: prod.splits sum.splits)

lemma listTeamRepoNames_forge:
  "snd (listTeamRepoNames (readOnlyService forgeService) orgName teamID f) = f"
  by (simp add: listTeamRepoNames_def readOnlyService_def forgeService_def
      forgeWalkReposByTeam_def split: option.splits)

lemma stillListed_forge:
  "snd (stillListed (readOnlyService forgeService) orgName left violations f) = f"
proof (induction left arbitrary: violations)
  case Nil
  then show ?case by simp
next
  case (Cons p left)
  obtain teamID hv where p: "p = (teamID, hv)" by (cases p)
  obtain r where r: "listTeamRepoNames (readOnlyService forgeService) orgName (ID hv) f = (r, f)"
    using snd_is[OF listTeamRepoNames_forge] by blast
  show ?case using Cons.IH r p by (cases r) simp_all
qed

lemma activeTeamDeletionsRule_forge:
  "snd (activeTeamDeletionsRule (readOnlyService forgeService) org f) = f"
proof -
  have l: "ListTeams (readOnlyService forgeService) (Org_Name org) f = (Inr (forge_teams f), f)"
    by (simp add: readOnlyService_def forgeService_def)
  let ?left = "unmatched (forge_teams f) (Org_Teams org)
      (fold (\<lambda>hv m. mapPut (ID hv) hv m) (forge_teams f) [])"
  obtain r where r: "stillListed (readOnlyService forgeService) (Org_Name org) ?left [] f = (r, f)"
    using snd_is[OF stillListed_forge] by blast
  show ?thesis
    unfolding activeTeamDeletionsRule_def l Let_def prod.case sum.case r
    by (cases r) simp_all
qed

lemma NewRuleEngine_forge:
  "rule \<in> set (NewRuleEngine regexpMatch (readOnlyService forgeService)) \<Longrightarrow> snd (rule org f) = f"
  by (auto simp: NewRuleEngine_def unknownUsersRule_forge activeTeamDeletionsRule_forge
      teamNamesUniqueRule_def usersUniqueWithinTeamRule_def teamNameLengthRule_def
      crossOrgMembershipsRule_def Let_def split: prod.splits sum.splits)

lemma runRules_state_kept:
  "\<forall>rule\<in>set rules. snd (rule org d) = d \<Longrightarrow> snd (runRules rules org acc d) = d"
proof (induction rules arbitrary: acc)
  case Nil
  then show ?case by simp
next
  case (Cons rule rules)
  then have "snd (rule org d) = d" by simp
  from snd_is[OF this] obtain r where r: "rule org d = (r, d)" ..
  from Cons have ih: "\<And>acc. snd (runRules rules org acc d) = d" by simp
  show ?case using r ih by (auto split: option.splits)
qed

lemma Run_state_kept:
  "\<forall>rule\<in>set rules. snd (rule org d) = d \<Longrightarrow> snd (Run rules org d) = d"
  using runRules_state_kept[of rules org d "[]"]
  by (auto simp: Run_def split: prod.splits sum.splits)

lemma RuleEngine_forge:
  "snd (RuleEngine (NewPlatform regexpMatch forgeService) org f) = f"
  by (simp add: NewPlatform_def Run_state_kept NewRuleEngine_forge)

text \<open>
  C3.  When the rule engine returns an error, \<open>ApplyOrg\<close> returns that error with the org
  untouched and the service in the state the rule engine left: \<open>ApplyOrg\<close> itself calls
  nothing.  With the platform's own rule engine over the in-memory forge, the forge is
  then exactly as before, with no write call received.
\<close>

theorem ApplyOrg_rule_failure_writes_nothing:
  "(RuleEngine plat org d = (Some err, d') \<longrightarrow> ApplyOrg plat org d = (Inl err, org, d'))
   \<and> (fst (RuleEngine (NewPlatform regexpMatch forgeService) org f) = Some err \<longrightarrow>
        ApplyOrg (NewPlatform regexpMatch forgeService) org f = (Inl err, org, f))"
proof (intro conjI impI)
  assume "RuleEngine plat org d = (Some err, d')"
  then show "ApplyOrg plat org d = (Inl err, org, d')"
    by (simp add: ApplyOrg_def)
next
  assume "fst (RuleEngine (NewPlatform regexpMatch forgeService) org f) = Some err"
  with snd_is[OF RuleEngine_forge[of regexpMatch org f]]
  have "RuleEngine (NewPlatform regexpMatch forgeService) org f = (Some err, f)"
    by auto
  then show "ApplyOrg (NewPlatform regexpMatch forgeService) org f = (Inl err, org, f)"
    by (simp add: ApplyOrg_def)
qed

section \<open>Examples\<close>

text \<open>A regular-expression matcher for the examples: every pattern compiles and matches.\<close>

definition matchAll :: regexp where
  "matchAll pattern s = Inr True"

text \<open>A forge holding one team \<open>b\<close> with id 1, and two users.\<close>

definition forgeB :: Forge where
  "forgeB = \<lparr>forge_teams = [\<lparr>ID = 1, ParentID = 0, Name = ''b'', Description = ''B''\<rparr>],
             forge_memberships = [],
             forge_admins = [],
             forge_users = [\<lparr>Login = ''ann'', Email = ''ann@x''\<rparr>, \<lparr>Login = ''bob'', Email = ''bob@x''\<rparr>],
             forge_repos = [],
             forge_nextID = 2,
             forge_written = []\<rparr>"

text \<open>An org with two teams of the same name.\<close>

definition orgTwins :: Org where
  "orgTwins = \<lparr>Org_Name = ''o'',
               Org_Teams = [Team ''b'' ''B'' [] [] [] [] [], Team ''b'' ''B'' [] [] [] [] []]\<rparr>"

theorem ApplyOrg_rule_failure_writes_nothing_witness:
  "RuleEngine \<lparr>GitHubService = forgeService,
      RuleEngine = (\<lambda>org d. (Some (OtherError ''no''), received (CallListTeams ''o'') d))\<rparr> orgTwins forgeB
      = (Some (OtherError ''no''), received (CallListTeams ''o'') forgeB)
   \<and> ApplyOrg \<lparr>GitHubService = forgeService,
      RuleEngine = (\<lambda>org d. (Some (OtherError ''no''), received (CallListTeams ''o'') d))\<rparr> orgTwins forgeB
      = (Inl (OtherError ''no''), orgTwins, received (CallListTeams ''o'') forgeB)
   \<and> fst (RuleEngine (NewPlatform matchAll forgeService) orgTwins forgeB) =
      Some (CompositeRuleError ''o'' [TeamNamesUniqueError [''b'']])
   \<and> ApplyOrg (NewPlatform matchAll forgeService) orgTwins forgeB =
      (Inl (CompositeRuleError ''o'' [TeamNamesUniqueError [''b'']]), orgTwins, forgeB)"
proof -
  let ?plat = "\<lparr>GitHubService = forgeService,
      RuleEngine = (\<lambda>org d. (Some (OtherError ''no''), received (CallListTeams ''o'') d))\<rparr>"
  have a: "RuleEngine ?plat orgTwins forgeB = (Some (OtherError ''no''), received (CallListTeams ''o'') forgeB)"
    by simp
  have b: "fst (RuleEngine (NewPlatform matchAll forgeService) orgTwins forgeB) =
      Some (CompositeRuleError ''o'' [TeamNamesUniqueError [''b'']])"
    by code_simp
  from a b show ?thesis
    using ApplyOrg_rule_failure_writes_nothing[of ?plat orgTwins forgeB "OtherError ''no''"
        "received (CallListTeams ''o'') forgeB" matchAll forgeB]
      ApplyOrg_rule_failure_writes_nothing[of ?plat orgTwins forgeB
        "CompositeRuleError ''o'' [TeamNamesUniqueError [''b'']]"
        "received (CallListTeams ''o'') forgeB" matchAll forgeB]
    by blast
qed

text \<open>A sequence of calls: a create, an update of a team that does not exist, a read, a
  delete.\<close>

definition someCalls :: "GitHubCall list" where
  "someCalls =
     [CallCreateTeam ''o'' \<lparr>ID = 0, ParentID = 0, Name = ''c'', Description = ''C''\<rparr>,
      CallUpdateTeam \<lparr>ID = 99, ParentID = 0, Name = ''z'', Description = ''Z''\<rparr>,
      CallListTeams ''o'',
      CallDeleteTeam 1]"

theorem statsService_counts_successful_writes_witness:
  "(\<forall>k. counter k (Stats (snd (invokeAll (statsService forgeService) someCalls
                                 (NewStatsGitHubService forgeB)))) =
         succeededWrites k someCalls (fst (invokeAll forgeService someCalls forgeB)))
   \<and> map returnedNoError (fst (invokeAll forgeService someCalls forgeB)) = [True, False, True, True]
   \<and> Stats (snd (invokeAll (statsService forgeService) someCalls (NewStatsGitHubService forgeB))) =
       \<lparr>TeamsCreated = 1, TeamsUpdated = 0, TeamsDeleted = 1,
        TeamMembershipsAdded = 0, TeamMembershipsDeleted = 0\<rparr>
   \<and> Stats (snd (invoke (statsService forgeService)
                   (CallUpdateTeam \<lparr>ID = 99, ParentID = 0, Name = ''z'', Description = ''Z''\<rparr>)
                   (forgeB, zeroStats))) = zeroStats"
proof -
  let ?run = "invokeAll (statsService forgeService) someCalls (NewStatsGitHubService forgeB)"
  let ?c = "CallUpdateTeam \<lparr>ID = 99, ParentID = 0, Name = ''z'', Description = ''Z''\<rparr>"
  have e: "?run = (fst ?run, snd ?run)" by simp
  have f: "\<not> returnedNoError (fst (invoke forgeService ?c forgeB))" by code_simp
  note t = statsService_counts_successful_writes[of forgeService someCalls forgeB "fst ?run" "snd ?run"
      ?c zeroStats]
  have 1: "\<forall>k. counter k (Stats (snd ?run)) =
         succeededWrites k someCalls (fst (invokeAll forgeService someCalls forgeB))"
    using t e by simp
  have 2: "map returnedNoError (fst (invokeAll forgeService someCalls forgeB)) = [True, False, True, True]"
    by code_simp
  have 3: "Stats (snd ?run) = \<lparr>TeamsCreated = 1, TeamsUpdated = 0, TeamsDeleted = 1,
        TeamMembershipsAdded = 0, TeamMembershipsDeleted = 0\<rparr>"
    by code_simp
  have 4: "Stats (snd (invoke (statsService forgeService) ?c (forgeB, zeroStats))) = zeroStats"
    using t f by simp
  from 1 2 3 4 show ?thesis by blast
qed

section \<open>The kept teams are desired teams\<close>

text \<open>The names of the desired teams of a tree, depth first.\<close>

fun allNames :: "Team list \<Rightarrow> string list" where
  "allNames [] = []"
| "allNames (t # teams) = Team_Name t # allNames (Team_Children t) @ allNames teams"

text \<open>What a service may promise about the team it returns.\<close>

definition updateKeepsName :: "'d GitHubService \<Rightarrow> bool" where
  "updateKeepsName s \<longleftrightarrow>
     (\<forall>team d t d'. UpdateTeam s team d = (Inr t, d') \<longrightarrow> Name t = Name team)"

definition createKeepsName :: "'d GitHubService \<Rightarrow> bool" where
  "createKeepsName s \<longleftrightarrow>
     (\<forall>orgName team d t d'. CreateTeam s orgName team d = (Inr t, d') \<longrightarrow> Name t = Name team)"

lemma updateTeam_name:
  assumes "updateKeepsName s" and "updateTeam s parent hv want d = (Inr t, d')"
  shows "Name t = Team_Name want"
proof (cases "teamModified parent hv want")
  case True
  with assms(2) have "UpdateTeam s (hv\<lparr>Name := Team_Name want, Description := Team_Description want,
      ParentID := wantParentID parent\<rparr>) d = (Inr t, d')"
    by (simp add: updateTeam_def)
  with assms(1) show ?thesis unfolding updateKeepsName_def by fastforce
next
  case False
  with assms(2) show ?thesis by (auto simp: updateTeam_def teamModified_def)
qed

lemma createTeam_name:
  assumes "createKeepsName s" and "createTeam s orgName parent want d = (Inr t, d')"
  shows "Name t = Team_Name want"
  using assms unfolding createKeepsName_def createTeam_def by fastforce

lemma process_names:
  "updateKeepsName s \<Longrightarrow> createKeepsName s \<Longrightarrow>
   process s orgName haveTeams parent wantTeams keptTeams d = (Inr keptTeams', d') \<Longrightarrow>
   set (map (\<lambda>k. Name (kept k)) keptTeams') \<subseteq>
     set (map (\<lambda>k. Name (kept k)) keptTeams) \<union> set (allNames wantTeams)"
proof (induction s orgName haveTeams parent wantTeams keptTeams d arbitrary: keptTeams' d'
    rule: process.induct)
  case (1 gitHubService orgName haveTeams parent keptTeams d)
  then show ?case by simp
next
  case (2 gitHubService orgName haveTeams parent want wantTeams keptTeams d)
  let ?step = "case findGitHubTeamFromDesired haveTeams want of
              Some hv \<Rightarrow> (False, updateTeam gitHubService parent hv want d)
            | None \<Rightarrow> (True, createTeam gitHubService orgName parent want d)"
  obtain wasCreated r d1 where step: "?step = (wasCreated, r, d1)" by (cases ?step)
  note u = "2.prems"(1) and c = "2.prems"(2) and run = "2.prems"(3)
  show ?case
  proof (cases r)
    case (Inl err)
    with step run show ?thesis by simp
  next
    case (Inr t)
    have tn: "Name t = Team_Name want"
      using step Inr updateTeam_name[OF u] createTeam_name[OF c]
      by (auto split: option.splits)
    let ?kept1 = "keptTeams @ [\<lparr>kept = t, created = wasCreated\<rparr>]"
    obtain r2 d2 where kids:
      "process gitHubService orgName haveTeams (Some t) (Team_Children want) ?kept1 d1 = (r2, d2)"
      by (cases "process gitHubService orgName haveTeams (Some t) (Team_Children want) ?kept1 d1")
    show ?thesis
    proof (cases r2)
      case (Inl err)
      with step \<open>r = Inr t\<close> kids run show ?thesis by simp
    next
      case (Inr kept2)
      have a: "set (map (\<lambda>k. Name (kept k)) kept2) \<subseteq>
           set (map (\<lambda>k. Name (kept k)) ?kept1) \<union> set (allNames (Team_Children want))"
        using "2.IH"(1)[OF step[symmetric] refl \<open>r = Inr t\<close> u c] kids Inr by simp
      have rest: "process gitHubService orgName haveTeams parent wantTeams kept2 d2 = (Inr keptTeams', d')"
        using step \<open>r = Inr t\<close> kids Inr run by simp
      have b: "set (map (\<lambda>k. Name (kept k)) keptTeams') \<subseteq>
           set (map (\<lambda>k. Name (kept k)) kept2) \<union> set (allNames wantTeams)"
        using "2.IH"(2)[OF step[symmetric] refl \<open>r = Inr t\<close> _ refl u c] kids Inr rest by simp
      from a tn have a': "set (map (\<lambda>k. Name (kept k)) kept2) \<subseteq>
           set (map (\<lambda>k. Name (kept k)) keptTeams) \<union> set (allNames (want # wantTeams))"
        by auto
      from b have b': "set (map (\<lambda>k. Name (kept k)) keptTeams') \<subseteq>
           set (map (\<lambda>k. Name (kept k)) kept2) \<union> set (allNames (want # wantTeams))"
        by auto
      from a' b' show ?thesis by blast
    qed
  qed
qed

lemma dom_traverse: "dom (traverse teams m) = dom m \<union> set (allNames teams)"
proof (induction teams m rule: traverse.induct)
  case (1 m)
  then show ?case by simp
next
  case (2 want wantTeams m)
  have "dom (m(Team_Name want \<mapsto> want)) = insert (Team_Name want) (dom m)" by simp
  with 2 show ?case by (simp only: traverse.simps allNames.simps set_append list.set) blast
qed

lemma dom_teamsByName: "dom (teamsByName teams) = set (allNames teams)"
  by (simp add: teamsByName_def dom_traverse)

lemma Team_Name_promoteTeam [simp]: "Team_Name (promoteTeam admins t) = Team_Name t"
  by (cases t) simp

lemma Team_Children_promoteTeam [simp]:
  "Team_Children (promoteTeam admins t) = map (promoteTeam admins) (Team_Children t)"
  by (cases t) simp

lemma allNames_promoteTeam: "allNames (map (promoteTeam admins) teams) = allNames teams"
  by (induction teams rule: allNames.induct) simp_all

lemma forgeService_updateKeepsName: "updateKeepsName forgeService"
  by (auto simp: updateKeepsName_def forgeService_def forgeUpdateTeam_def split: if_splits)

lemma forgeService_createKeepsName: "createKeepsName forgeService"
  by (auto simp: createKeepsName_def forgeService_def forgeCreateTeam_def Let_def)

lemma statsService_updateKeepsName: "updateKeepsName s \<Longrightarrow> updateKeepsName (statsService s)"
  unfolding updateKeepsName_def
  by (fastforce simp: statsService_def countedReturns_def split: prod.splits sum.splits)

lemma statsService_createKeepsName: "createKeepsName s \<Longrightarrow> createKeepsName (statsService s)"
  unfolding createKeepsName_def
  by (fastforce simp: statsService_def countedReturns_def split: prod.splits sum.splits)

lemma readOnlyService_keepsName:
  "updateKeepsName (readOnlyService s)" "createKeepsName (readOnlyService s)"
  by (auto simp: updateKeepsName_def createKeepsName_def readOnlyService_def)

text \<open>
  C10, as amended.  Over any service whose \<open>UpdateTeam\<close> and whose \<open>CreateTeam\<close> both
  return a team with the name they were given, every team that \<open>configureTeams\<close> keeps
  has a name that is a key of the map \<open>teamsByName\<close> built, after \<open>promoteAdmins\<close>, by
  \<open>configureTeamMemberships\<close>: the lookup there cannot miss.  Unique desired names are
  not needed.
\<close>

theorem kept_teams_are_desired:
  assumes "updateKeepsName s" and "createKeepsName s"
    and "configureTeams s org haveTeams d = (Inr keptTeams, d')"
    and "promoteAdmins s org d' = (None, org', d'')"
  shows "\<forall>k\<in>set keptTeams. teamsByName (Org_Teams org') (Name (kept k)) \<noteq> None"
proof -
  from assms(3) obtain d1 where
    p: "process s (Org_Name org) haveTeams None (Org_Teams org) [] d = (Inr keptTeams, d1)"
    by (auto simp: configureTeams_def split: prod.splits sum.splits option.splits)
  from process_names[OF assms(1,2) p]
  have names: "set (map (\<lambda>k. Name (kept k)) keptTeams) \<subseteq> set (allNames (Org_Teams org))"
    by simp
  have "\<exists>admins. Org_Teams org' = map (promoteTeam admins) (Org_Teams org)"
  proof (cases "ListAdmins s (Org_Name org) d'")
    case (Pair r dd)
    with assms(4) show ?thesis by (cases r) (auto simp: promoteAdmins_def)
  qed
  then obtain admins where "Org_Teams org' = map (promoteTeam admins) (Org_Teams org)" ..
  then have "dom (teamsByName (Org_Teams org')) = set (allNames (Org_Teams org))"
    by (simp add: dom_teamsByName allNames_promoteTeam)
  with names show ?thesis by (auto simp: dom_def)
qed

text \<open>
  A service that differs from the in-memory forge in one respect: the team it creates,
  and returns, carries only the first eight characters of the name it was given.
\<close>

definition shorteningService :: "Forge GitHubService" where
  "shorteningService =
     forgeService\<lparr>CreateTeam :=
       (\<lambda>orgName team. forgeCreateTeam orgName (team\<lparr>Name := take 8 (Name team)\<rparr>))\<rparr>"

definition forgeEmpty :: Forge where
  "forgeEmpty = \<lparr>forge_teams = [], forge_memberships = [], forge_admins = [],
                 forge_users = [], forge_repos = [], forge_nextID = 1, forge_written = []\<rparr>"

definition orgPlatform :: Org where
  "orgPlatform = \<lparr>Org_Name = ''o'', Org_Teams = [Team ''platform-team'' ''P'' [] [] [] [] []]\<rparr>"

definition acceptAll :: "Org \<Rightarrow> 'd \<Rightarrow> error option \<times> 'd" where
  "acceptAll org d = (None, d)"

lemma shorteningService_updateKeepsName: "updateKeepsName shorteningService"
  by (auto simp: updateKeepsName_def shorteningService_def forgeService_def forgeUpdateTeam_def
      split: if_splits)

text \<open>
  C10 as stated fails: the desired names are unique and \<open>UpdateTeam\<close> returns the name it
  was given, yet the team created for \<open>platform-team\<close> comes back as \<open>platform\<close>, which
  is no key of the map, and \<open>ApplyOrg\<close> ends in the error of that branch.
\<close>

theorem kept_teams_are_desired_counterexample:
  "distinct (allNames (Org_Teams orgPlatform))
   \<and> updateKeepsName shorteningService
   \<and> fst (configureTeams shorteningService orgPlatform [] forgeEmpty) =
        Inr [\<lparr>kept = \<lparr>ID = 1, ParentID = 0, Name = ''platform'', Description = ''P''\<rparr>,
              created = True\<rparr>]
   \<and> fst (promoteAdmins shorteningService orgPlatform
             (snd (configureTeams shorteningService orgPlatform [] forgeEmpty))) = None
   \<and> fst (snd (promoteAdmins shorteningService orgPlatform
             (snd (configureTeams shorteningService orgPlatform [] forgeEmpty)))) = orgPlatform
   \<and> teamsByName (Org_Teams orgPlatform) ''platform'' = None
   \<and> fst (ApplyOrg \<lparr>GitHubService = shorteningService, RuleEngine = acceptAll\<rparr>
             orgPlatform forgeEmpty) = Inl (notDesired ''platform'')"
proof -
  have 1: "distinct (allNames (Org_Teams orgPlatform))" by code_simp
  have 3: "fst (configureTeams shorteningService orgPlatform [] forgeEmpty) =
        Inr [\<lparr>kept = \<lparr>ID = 1, ParentID = 0, Name = ''platform'', Description = ''P''\<rparr>,
              created = True\<rparr>]" by code_simp
  have 4: "fst (promoteAdmins shorteningService orgPlatform
             (snd (configureTeams shorteningService orgPlatform [] forgeEmpty))) = None"
    by code_simp
  have 5: "fst (snd (promoteAdmins shorteningService orgPlatform
             (snd (configureTeams shorteningService orgPlatform [] forgeEmpty)))) = orgPlatform"
    by code_simp
  have 6: "teamsByName (Org_Teams orgPlatform) ''platform'' = None" by code_simp
  have 7: "fst (ApplyOrg \<lparr>GitHubService = shorteningService, RuleEngine = acceptAll\<rparr>
             orgPlatform forgeEmpty) = Inl (notDesired ''platform'')" by code_simp
  from 1 shorteningService_updateKeepsName 3 4 5 6 7 show ?thesis by blast
qed

text \<open>An org with a renamed team and a new child, for the forge that holds team \<open>b\<close>.\<close>

definition orgRenamed :: Org where
  "orgRenamed = \<lparr>Org_Name = ''o'',
     Org_Teams = [Team ''a'' ''A'' [''b''] [] [''ann@x''] [''.*''] [Team ''c'' ''C'' [] [] [''bob@x''] [] []]]\<rparr>"

theorem kept_teams_are_desired_witness:
  "updateKeepsName forgeService \<and> createKeepsName forgeService
   \<and> fst (configureTeams forgeService orgRenamed (forge_teams forgeB) forgeB) =
        Inr [\<lparr>kept = \<lparr>ID = 1, ParentID = 0, Name = ''a'', Description = ''A''\<rparr>, created = False\<rparr>,
             \<lparr>kept = \<lparr>ID = 2, ParentID = 1, Name = ''c'', Description = ''C''\<rparr>, created = True\<rparr>]
   \<and> teamsByName (Org_Teams orgRenamed) ''a'' \<noteq> None
   \<and> teamsByName (Org_Teams orgRenamed) ''c'' \<noteq> None"
proof -
  let ?kept = "[\<lparr>kept = \<lparr>ID = 1, ParentID = 0, Name = ''a'', Description = ''A''\<rparr>, created = False\<rparr>,
             \<lparr>kept = \<lparr>ID = 2, ParentID = 1, Name = ''c'', Description = ''C''\<rparr>, created = True\<rparr>]"
  let ?run = "configureTeams forgeService orgRenamed (forge_teams forgeB) forgeB"
  have c: "fst ?run = Inr ?kept" by code_simp
  then have c': "?run = (Inr ?kept, snd ?run)" by (metis prod.collapse)
  have p: "promoteAdmins forgeService orgRenamed (snd ?run) = (None, orgRenamed, snd ?run)"
    by code_simp
  from kept_teams_are_desired[OF forgeService_updateKeepsName forgeService_createKeepsName c' p]
  have "teamsByName (Org_Teams orgRenamed) ''a'' \<noteq> None"
    and "teamsByName (Org_Teams orgRenamed) ''c'' \<noteq> None" by simp_all
  with forgeService_updateKeepsName forgeService_createKeepsName c
  show ?thesis by blast
qed
section \<open>Name normalisation (normaliseName)\<close>

text \<open>
  A name is a byte string in UTF-8.  \<open>strings.ToLower\<close> lowers every letter of Unicode.
  The third step of the normalisation drops every rune outside ASCII, so only the runes
  whose lower case is an ASCII letter show in the result: the letters A to Z, the dotted
  capital I (U+0130, the bytes C4 B0, lowered to i) and the Kelvin sign (U+212A, the bytes
  E2 84 AA, lowered to k).  The lead bytes C4 and E2 never occur inside a rune, so the two
  byte patterns are exactly these runes.  Every other byte above 7F is left as it is, to
  be dropped by the third step as the rune it belongs to is.
\<close>

definition isUpper :: "char \<Rightarrow> bool" where
  "isUpper c \<longleftrightarrow> CHR ''A'' \<le> c \<and> c \<le> CHR ''Z''"

definition toLowerChar :: "char \<Rightarrow> char" where
  "toLowerChar c = (if isUpper c then char_of (of_char c + (32::nat)) else c)"

function ToLower :: "string \<Rightarrow> string" where
  "ToLower [] = []"
| "ToLower (c # cs) =
     (if c = CHR 0xC4 \<and> take 1 cs = [CHR 0xB0] then CHR ''i'' # ToLower (drop 1 cs)
      else if c = CHR 0xE2 \<and> take 2 cs = [CHR 0x84, CHR 0xAA] then CHR ''k'' # ToLower (drop 2 cs)
      else toLowerChar c # ToLower cs)"
  by pat_completeness auto
termination
  by (relation "measure length") auto

text \<open>\<open>[ _]+\<close> replaced by a hyphen: every maximal run of spaces and underscores.\<close>

definition isSpaceOrUnderscore :: "char \<Rightarrow> bool" where
  "isSpaceOrUnderscore c \<longleftrightarrow> c = CHR '' '' \<or> c = CHR ''_''"

function noSpaces :: "string \<Rightarrow> string" where
  "noSpaces [] = []"
| "noSpaces (c # cs) =
     (if isSpaceOrUnderscore c
      then CHR ''-'' # noSpaces (dropWhile isSpaceOrUnderscore cs)
      else c # noSpaces cs)"
  by pat_completeness auto
termination
  by (relation "measure length") (auto simp: length_dropWhile_le less_Suc_eq_le)

text \<open>The characters that \<open>[^abcdefghijklmnopqrstuvwxyz0123456789\-_]\<close> does not match.\<close>

definition goodChar :: "char \<Rightarrow> bool" where
  "goodChar c \<longleftrightarrow>
     (CHR ''a'' \<le> c \<and> c \<le> CHR ''z'') \<or> (CHR ''0'' \<le> c \<and> c \<le> CHR ''9'') \<or>
     c = CHR ''-'' \<or> c = CHR ''_''"

text \<open>\<open>[-]{2,}\<close> replaced by a hyphen: every maximal run of hyphens becomes one hyphen.\<close>

function multipleHyphens :: "string \<Rightarrow> string" where
  "multipleHyphens [] = []"
| "multipleHyphens (c # cs) =
     (if c = CHR ''-''
      then CHR ''-'' # multipleHyphens (dropWhile (\<lambda>x. x = CHR ''-'') cs)
      else c # multipleHyphens cs)"
  by pat_completeness auto
termination
  by (relation "measure length") (auto simp: length_dropWhile_le less_Suc_eq_le)

text \<open>\<open>(^[\-_]+)|([\-_]+)$\<close> removed: the hyphens and underscores at either end.\<close>

definition isHyphenOrUnderscore :: "char \<Rightarrow> bool" where
  "isHyphenOrUnderscore c \<longleftrightarrow> c = CHR ''-'' \<or> c = CHR ''_''"

definition startAndEnd :: "string \<Rightarrow> string" where
  "startAndEnd s =
     rev (dropWhile isHyphenOrUnderscore (rev (dropWhile isHyphenOrUnderscore s)))"

definition normaliseName :: "string \<Rightarrow> string" where
  "normaliseName name =
     startAndEnd (multipleHyphens (filter goodChar (noSpaces (ToLower name))))"
section \<open>Admin topics (rectifyRepoAdminTopics, UpdateRepoAdminTopics, UpdateAdminTopics)\<close>

definition adminTopicPrefix :: string where
  "adminTopicPrefix = ''admin-''"

definition maxTopicLength :: nat where
  "maxTopicLength = 35"

record UpdateAdminTopicsResult =
  ReposUpdated :: int

definition HasPrefix :: "string \<Rightarrow> string \<Rightarrow> bool" where
  "HasPrefix s p \<longleftrightarrow> take (length p) s = p"

text \<open>The admin topic of a team: the prefixed normalised name, cut when too long.\<close>

definition adminTopic :: "string \<Rightarrow> string" where
  "adminTopic teamName =
     (let t = adminTopicPrefix @ normaliseName teamName
      in if length t \<ge> maxTopicLength then take (maxTopicLength - 1) t else t)"

text \<open>
  The set \<open>wantTopics\<close>, as the list of its elements in order of insertion: the topics
  that are not admin topics, then the admin topic of every team with admin permission.
\<close>

definition wantTopics :: "Repo \<Rightarrow> string list" where
  "wantTopics r =
     remdups (filter (\<lambda>topic. \<not> HasPrefix topic adminTopicPrefix) (Repo_Topics r) @
              map (\<lambda>team. adminTopic (TeamName team))
                (filter (\<lambda>team. Permission team = RepoPermissionAdmin) (Repo_Teams r)))"

text \<open>
  \<open>rectifyRepoAdminTopics\<close> returns whether it changed the repo, and the repo as it leaves
  it.  The sets are equal when they have the same elements; the slice taken from the set
  is sorted, so the unspecified order of \<open>ToSlice\<close> does not show.
\<close>

definition rectifyRepoAdminTopics :: "Repo \<Rightarrow> bool \<times> Repo" where
  "rectifyRepoAdminTopics r =
     (if set (Repo_Topics r) = set (wantTopics r) then (False, r)
      else (True, r\<lparr>Repo_Topics := sort (wantTopics r)\<rparr>))"

definition UpdateRepoAdminTopics ::
  "'d GitHubService \<Rightarrow> string \<Rightarrow> string \<Rightarrow> (UpdateAdminTopicsResult, 'd) returns" where
  "UpdateRepoAdminTopics gitHubService orgName repoName d =
     (case RepoByName gitHubService orgName repoName d of
        (Inl err, d') \<Rightarrow> (Inl err, d')
      | (Inr repo, d') \<Rightarrow>
          (case rectifyRepoAdminTopics repo of
             (True, repo') \<Rightarrow>
               (case UpdateRepoTopics gitHubService orgName repoName (Repo_Topics repo') d' of
                  (Some err, d'') \<Rightarrow> (Inl err, d'')
                | (None, d'') \<Rightarrow> (Inr \<lparr>ReposUpdated = 1\<rparr>, d''))
           | (False, repo') \<Rightarrow> (Inr \<lparr>ReposUpdated = 1\<rparr>, d')))"

text \<open>\<open>UpdateAdminTopics\<close>: the repos that need an update are collected during the walk,
  then updated one by one; the result counts the collected repos.\<close>

fun updateEach :: "'d GitHubService \<Rightarrow> string \<Rightarrow> Repo list \<Rightarrow> 'd fails" where
  "updateEach gitHubService orgName [] d = (None, d)"
| "updateEach gitHubService orgName (repo # repos) d =
     (case UpdateRepoTopics gitHubService orgName (Repo_Name repo) (Repo_Topics repo) d of
        (Some err, d') \<Rightarrow> (Some err, d')
      | (None, d') \<Rightarrow> updateEach gitHubService orgName repos d')"

definition UpdateAdminTopics ::
  "'d GitHubService \<Rightarrow> string \<Rightarrow> (UpdateAdminTopicsResult, 'd) returns" where
  "UpdateAdminTopics gitHubService orgName d =
     (case WalkRepos gitHubService orgName d of
        (Inl err, d') \<Rightarrow> (Inl err, d')
      | (Inr walked, d') \<Rightarrow>
          (let repos = map snd (filter fst (map rectifyRepoAdminTopics walked))
           in case updateEach gitHubService orgName repos d' of
                (Some err, d'') \<Rightarrow> (Inl err, d'')
              | (None, d'') \<Rightarrow> (Inr \<lparr>ReposUpdated = int (length repos)\<rparr>, d'')))"
subsection \<open>The shape of a normalised name\<close>

definition isNameChar :: "char \<Rightarrow> bool" where
  "isNameChar c \<longleftrightarrow>
     (CHR ''a'' \<le> c \<and> c \<le> CHR ''z'') \<or> (CHR ''0'' \<le> c \<and> c \<le> CHR ''9'') \<or> c = CHR ''-''"

text \<open>Whether a string has two hyphens next to each other.\<close>

fun adjacentHyphens :: "string \<Rightarrow> bool" where
  "adjacentHyphens (a # b # cs) = ((a = CHR ''-'' \<and> b = CHR ''-'') \<or> adjacentHyphens (b # cs))"
| "adjacentHyphens _ = False"

definition isLowercase :: "string \<Rightarrow> bool" where
  "isLowercase s \<longleftrightarrow> (\<forall>c\<in>set s. \<not> isUpper c)"

lemma goodChar_not_upper: "goodChar c \<Longrightarrow> \<not> isUpper c"
  by (auto simp: goodChar_def isUpper_def less_eq_char_def)

lemma noSpaces_no_underscore: "c \<in> set (noSpaces s) \<Longrightarrow> \<not> isSpaceOrUnderscore c"
proof (induction s rule: noSpaces.induct)
  case 1
  then show ?case by simp
next
  case (2 a cs)
  then show ?case
    by (cases "isSpaceOrUnderscore a") (auto simp: isSpaceOrUnderscore_def)
qed

lemma set_multipleHyphens: "set (multipleHyphens s) \<subseteq> set s"
proof (induction s rule: multipleHyphens.induct)
  case 1
  then show ?case by simp
next
  case (2 c cs)
  have "set (dropWhile (\<lambda>x. x = CHR ''-'') cs) \<subseteq> set cs"
    by (auto dest: set_dropWhileD)
  with 2 show ?case by auto
qed

lemma set_startAndEnd: "set (startAndEnd s) \<subseteq> set s"
  by (auto simp: startAndEnd_def dest!: set_dropWhileD)

lemma normaliseName_good: "c \<in> set (normaliseName name) \<Longrightarrow> goodChar c"
proof -
  assume "c \<in> set (normaliseName name)"
  then have "c \<in> set (multipleHyphens (filter goodChar (noSpaces (ToLower name))))"
    using set_startAndEnd by (auto simp: normaliseName_def)
  then have "c \<in> set (filter goodChar (noSpaces (ToLower name)))"
    using set_multipleHyphens by blast
  then show "goodChar c" by simp
qed

lemma normaliseName_chars: "c \<in> set (normaliseName name) \<Longrightarrow> isNameChar c"
proof -
  assume a: "c \<in> set (normaliseName name)"
  then have "c \<in> set (multipleHyphens (filter goodChar (noSpaces (ToLower name))))"
    using set_startAndEnd by (auto simp: normaliseName_def)
  then have "c \<in> set (filter goodChar (noSpaces (ToLower name)))"
    using set_multipleHyphens by blast
  then have "goodChar c" and "\<not> isSpaceOrUnderscore c"
    using noSpaces_no_underscore by auto
  then show "isNameChar c"
    by (auto simp: goodChar_def isNameChar_def isSpaceOrUnderscore_def)
qed

lemma adjacentHyphens_Cons:
  "adjacentHyphens (a # ys) \<longleftrightarrow>
     (a = CHR ''-'' \<and> ys \<noteq> [] \<and> hd ys = CHR ''-'') \<or> adjacentHyphens ys"
  by (cases ys) auto

lemma adjacentHyphens_append:
  "adjacentHyphens (xs @ ys) \<longleftrightarrow>
     adjacentHyphens xs \<or> adjacentHyphens ys \<or>
     (xs \<noteq> [] \<and> ys \<noteq> [] \<and> last xs = CHR ''-'' \<and> hd ys = CHR ''-'')"
proof (induction xs)
  case Nil
  then show ?case by simp
next
  case (Cons a xs)
  show ?case
  proof (cases xs)
    case Nil
    then show ?thesis by (auto simp: adjacentHyphens_Cons)
  next
    case (Cons b bs)
    with Cons.IH show ?thesis
      by (simp only: append_Cons adjacentHyphens_Cons[of a] hd_append2 list.sel) auto
  qed
qed

lemma adjacentHyphens_rev: "adjacentHyphens (rev s) \<longleftrightarrow> adjacentHyphens s"
proof (induction s)
  case Nil
  then show ?case by simp
next
  case (Cons a s)
  then show ?case
    by (cases "s = []") (auto simp: adjacentHyphens_append adjacentHyphens_Cons last_rev)
qed

lemma adjacentHyphens_dropWhile: "\<not> adjacentHyphens s \<Longrightarrow> \<not> adjacentHyphens (dropWhile P s)"
  by (induction s) (auto simp: adjacentHyphens_Cons)

lemma multipleHyphens_Nil: "multipleHyphens s = [] \<longleftrightarrow> s = []"
  by (cases s) auto

lemma hd_multipleHyphens: "s \<noteq> [] \<Longrightarrow> hd (multipleHyphens s) = hd s"
  by (cases s) auto

lemma multipleHyphens_not_adjacent: "\<not> adjacentHyphens (multipleHyphens s)"
proof (induction s rule: multipleHyphens.induct)
  case 1
  then show ?case by simp
next
  case (2 c cs)
  show ?case
  proof (cases "c = CHR ''-''")
    case True
    let ?rest = "dropWhile (\<lambda>x. x = CHR ''-'') cs"
    have "?rest \<noteq> [] \<Longrightarrow> hd ?rest \<noteq> CHR ''-''"
      using hd_dropWhile[of "\<lambda>x. x = CHR ''-''" cs] by simp
    then have "multipleHyphens ?rest \<noteq> [] \<Longrightarrow> hd (multipleHyphens ?rest) \<noteq> CHR ''-''"
      by (simp add: multipleHyphens_Nil hd_multipleHyphens)
    with True 2 show ?thesis by (auto simp: adjacentHyphens_Cons)
  next
    case False
    with 2 show ?thesis by (simp add: adjacentHyphens_Cons)
  qed
qed

lemma startAndEnd_not_adjacent: "\<not> adjacentHyphens s \<Longrightarrow> \<not> adjacentHyphens (startAndEnd s)"
  by (simp add: startAndEnd_def adjacentHyphens_rev adjacentHyphens_dropWhile)

lemma startAndEnd_ends:
  assumes "startAndEnd s \<noteq> []"
  shows "\<not> isHyphenOrUnderscore (hd (startAndEnd s))"
    and "\<not> isHyphenOrUnderscore (last (startAndEnd s))"
proof -
  let ?P = isHyphenOrUnderscore
  let ?ys = "dropWhile ?P s"
  let ?zs = "dropWhile ?P (rev ?ys)"
  have r: "startAndEnd s = rev ?zs" by (simp add: startAndEnd_def)
  with assms have zs: "?zs \<noteq> []" by simp
  have "last (rev ?zs) = hd ?zs" using zs by (simp add: last_rev)
  moreover have "\<not> ?P (hd ?zs)" using zs hd_dropWhile by blast
  ultimately show "\<not> ?P (last (startAndEnd s))" using r by simp
  have "rev ?zs @ rev (takeWhile ?P (rev ?ys)) = ?ys"
    by (metis rev_append rev_rev_ident takeWhile_dropWhile_id)
  then have "hd ?ys = hd (rev ?zs)" using zs by (metis hd_append2 rev_is_Nil_conv)
  moreover have "?ys \<noteq> []" using zs by (metis dropWhile.simps(1) rev.simps(1))
  then have "\<not> ?P (hd ?ys)" using hd_dropWhile by blast
  ultimately show "\<not> ?P (hd (startAndEnd s))" using r by simp
qed

lemma normaliseName_ends:
  "normaliseName name \<noteq> [] \<Longrightarrow>
   hd (normaliseName name) \<noteq> CHR ''-'' \<and> last (normaliseName name) \<noteq> CHR ''-''"
  using startAndEnd_ends[of "multipleHyphens (filter goodChar (noSpaces (ToLower name)))"]
  by (auto simp: normaliseName_def isHyphenOrUnderscore_def)

lemma normaliseName_not_adjacent: "\<not> adjacentHyphens (normaliseName name)"
  by (simp add: normaliseName_def startAndEnd_not_adjacent multipleHyphens_not_adjacent)

subsection \<open>The canonical topic set\<close>

lemma adminTopic_take:
  "adminTopic teamName = take 34 (''admin-'' @ normaliseName teamName)"
  by (simp add: adminTopic_def adminTopicPrefix_def maxTopicLength_def Let_def)

lemma adminTopic_lowercase: "isLowercase (adminTopic teamName)"
proof -
  have "\<not> isUpper c" if "c \<in> set (''admin-'' @ normaliseName teamName)" for c
  proof -
    from that have "c \<in> set ''admin-'' \<or> c \<in> set (normaliseName teamName)" by simp
    then show ?thesis
    proof
      assume "c \<in> set ''admin-''"
      then have "goodChar c" by (auto simp: goodChar_def less_eq_char_def)
      then show ?thesis by (rule goodChar_not_upper)
    next
      assume "c \<in> set (normaliseName teamName)"
      then show ?thesis using normaliseName_good goodChar_not_upper by blast
    qed
  qed
  then show ?thesis
    unfolding isLowercase_def adminTopic_take by (meson in_set_takeD)
qed

lemma set_wantTopics:
  "set (wantTopics r) =
     {topic \<in> set (Repo_Topics r). \<not> HasPrefix topic ''admin-''} \<union>
     (\<lambda>team. take 34 (''admin-'' @ normaliseName (TeamName team))) `
       {team \<in> set (Repo_Teams r). Permission team = RepoPermissionAdmin}"
  by (auto simp: wantTopics_def adminTopic_take adminTopicPrefix_def)

text \<open>
  C7.  The target set keeps exactly the observed topics without the prefix \<open>admin-\<close> and
  adds, for every team with admin permission, \<open>admin-\<close> followed by the normalised team
  name, cut to 34 characters.  \<open>rectifyRepoAdminTopics\<close> reports a change exactly when
  the observed topics are not this set; it then leaves the repo with the target as a
  sorted list without duplicates, and otherwise leaves the repo as it was.  A normalised
  name consists of the characters a to z, 0 to 9 and the hyphen, neither starts nor ends
  with a hyphen and has no two hyphens in a row; so every admin topic is lowercase, and
  the target is lowercase whenever the observed topics are (as the forge keeps them).
\<close>

theorem rectifyRepoAdminTopics_target:
  "set (wantTopics r) =
     {topic \<in> set (Repo_Topics r). \<not> HasPrefix topic ''admin-''} \<union>
     (\<lambda>team. take 34 (''admin-'' @ normaliseName (TeamName team))) `
       {team \<in> set (Repo_Teams r). Permission team = RepoPermissionAdmin}
   \<and> (fst (rectifyRepoAdminTopics r) \<longleftrightarrow> set (Repo_Topics r) \<noteq> set (wantTopics r))
   \<and> (fst (rectifyRepoAdminTopics r) \<longrightarrow>
        snd (rectifyRepoAdminTopics r) = r\<lparr>Repo_Topics := sort (wantTopics r)\<rparr> \<and>
        sorted (Repo_Topics (snd (rectifyRepoAdminTopics r))) \<and>
        distinct (Repo_Topics (snd (rectifyRepoAdminTopics r))) \<and>
        set (Repo_Topics (snd (rectifyRepoAdminTopics r))) = set (wantTopics r))
   \<and> (\<not> fst (rectifyRepoAdminTopics r) \<longrightarrow> snd (rectifyRepoAdminTopics r) = r)
   \<and> (\<forall>c\<in>set (normaliseName name). isNameChar c)
   \<and> (normaliseName name \<noteq> [] \<longrightarrow>
        hd (normaliseName name) \<noteq> CHR ''-'' \<and> last (normaliseName name) \<noteq> CHR ''-'')
   \<and> \<not> adjacentHyphens (normaliseName name)
   \<and> (\<forall>team\<in>set (Repo_Teams r). isLowercase (adminTopic (TeamName team)))
   \<and> ((\<forall>topic\<in>set (Repo_Topics r). isLowercase topic) \<longrightarrow>
        (\<forall>topic\<in>set (wantTopics r). isLowercase topic))"
proof (intro conjI)
  show "set (wantTopics r) =
     {topic \<in> set (Repo_Topics r). \<not> HasPrefix topic ''admin-''} \<union>
     (\<lambda>team. take 34 (''admin-'' @ normaliseName (TeamName team))) `
       {team \<in> set (Repo_Teams r). Permission team = RepoPermissionAdmin}"
    by (rule set_wantTopics)
  show "fst (rectifyRepoAdminTopics r) \<longleftrightarrow> set (Repo_Topics r) \<noteq> set (wantTopics r)"
    by (simp add: rectifyRepoAdminTopics_def)
  have "distinct (wantTopics r)" by (simp add: wantTopics_def)
  then show "fst (rectifyRepoAdminTopics r) \<longrightarrow>
        snd (rectifyRepoAdminTopics r) = r\<lparr>Repo_Topics := sort (wantTopics r)\<rparr> \<and>
        sorted (Repo_Topics (snd (rectifyRepoAdminTopics r))) \<and>
        distinct (Repo_Topics (snd (rectifyRepoAdminTopics r))) \<and>
        set (Repo_Topics (snd (rectifyRepoAdminTopics r))) = set (wantTopics r)"
    by (simp add: rectifyRepoAdminTopics_def)
  show "\<not> fst (rectifyRepoAdminTopics r) \<longrightarrow> snd (rectifyRepoAdminTopics r) = r"
    by (simp add: rectifyRepoAdminTopics_def)
  show "\<forall>c\<in>set (normaliseName name). isNameChar c"
    by (simp add: normaliseName_chars)
  show "normaliseName name \<noteq> [] \<longrightarrow>
        hd (normaliseName name) \<noteq> CHR ''-'' \<and> last (normaliseName name) \<noteq> CHR ''-''"
    using normaliseName_ends by blast
  show "\<not> adjacentHyphens (normaliseName name)"
    by (rule normaliseName_not_adjacent)
  show "\<forall>team\<in>set (Repo_Teams r). isLowercase (adminTopic (TeamName team))"
    by (simp add: adminTopic_lowercase)
  show "(\<forall>topic\<in>set (Repo_Topics r). isLowercase topic) \<longrightarrow>
        (\<forall>topic\<in>set (wantTopics r). isLowercase topic)"
    using adminTopic_lowercase by (auto simp: wantTopics_def)
qed

text \<open>
  The repos of the tests: \<open>repo1\<close> lacks its admin topics, \<open>repo2\<close> has one of them and a
  stale one, \<open>repo3\<close> has them all.  \<open>repoLong\<close> has an admin team whose name needs every
  step of the normalisation and whose topic is cut.
\<close>

definition repo1 :: Repo where
  "repo1 = \<lparr>Repo_Name = ''repo1'', Repo_Topics = [''blue'', ''red'', ''green''],
            Repo_Teams = [\<lparr>TeamName = ''Foo'', Permission = RepoPermissionAdmin\<rparr>,
                          \<lparr>TeamName = ''Bar'', Permission = RepoPermissionAdmin\<rparr>,
                          \<lparr>TeamName = ''Baz'', Permission = RepoPermissionRead\<rparr>]\<rparr>"

definition repo2 :: Repo where
  "repo2 = \<lparr>Repo_Name = ''repo2'',
            Repo_Topics = [''admin-foo'', ''admin-old'', ''one'', ''two'', ''three''],
            Repo_Teams = [\<lparr>TeamName = ''Foo'', Permission = RepoPermissionAdmin\<rparr>,
                          \<lparr>TeamName = ''Bar'', Permission = RepoPermissionAdmin\<rparr>]\<rparr>"

definition repo3 :: Repo where
  "repo3 = \<lparr>Repo_Name = ''repo3'',
            Repo_Topics = [''admin-foo'', ''admin-baz'', ''ichi'', ''ni'', ''san'', ''shi''],
            Repo_Teams = [\<lparr>TeamName = ''Foo'', Permission = RepoPermissionAdmin\<rparr>,
                          \<lparr>TeamName = ''Baz'', Permission = RepoPermissionAdmin\<rparr>,
                          \<lparr>TeamName = ''Qux'', Permission = RepoPermissionRead\<rparr>]\<rparr>"

definition repoLong :: Repo where
  "repoLong = \<lparr>Repo_Name = ''long'', Repo_Topics = [''zeta'', ''admin-gone'', ''zeta''],
               Repo_Teams = [\<lparr>TeamName = ''__Platform  &  Delivery -- Engineering (EU)_'',
                               Permission = RepoPermissionAdmin\<rparr>]\<rparr>"

theorem rectifyRepoAdminTopics_target_witness:
  "fst (rectifyRepoAdminTopics repo1)
   \<and> Repo_Topics (snd (rectifyRepoAdminTopics repo1)) =
        [''admin-bar'', ''admin-foo'', ''blue'', ''green'', ''red'']
   \<and> sorted (Repo_Topics (snd (rectifyRepoAdminTopics repo1)))
   \<and> distinct (Repo_Topics (snd (rectifyRepoAdminTopics repo1)))
   \<and> list_all isLowercase (Repo_Topics repo1)
   \<and> list_all isLowercase (wantTopics repo1)
   \<and> fst (rectifyRepoAdminTopics repo2)
   \<and> Repo_Topics (snd (rectifyRepoAdminTopics repo2)) =
        [''admin-bar'', ''admin-foo'', ''one'', ''three'', ''two'']
   \<and> \<not> fst (rectifyRepoAdminTopics repo3)
   \<and> snd (rectifyRepoAdminTopics repo3) = repo3
   \<and> normaliseName ''__Platform  &  Delivery -- Engineering (EU)_'' =
        ''platform-delivery-engineering-eu''
   \<and> length (''admin-'' @ normaliseName ''__Platform  &  Delivery -- Engineering (EU)_'') = 38
   \<and> fst (rectifyRepoAdminTopics repoLong)
   \<and> Repo_Topics (snd (rectifyRepoAdminTopics repoLong)) =
        [''admin-platform-delivery-engineerin'', ''zeta'']
   \<and> hd (normaliseName ''__Platform  &  Delivery -- Engineering (EU)_'') = CHR ''p''
   \<and> last (normaliseName ''__Platform  &  Delivery -- Engineering (EU)_'') = CHR ''u''
   \<and> normaliseName ''abcdefghijklmnopqrstuvxyz-0123456789goodname'' =
        ''abcdefghijklmnopqrstuvxyz-0123456789goodname''
   \<and> normaliseName ''this name has spaces'' = ''this-name-has-spaces''
   \<and> normaliseName ''/:*?!<>|;,[]()^#%&@+={}~.'' = []
   \<and> normaliseName '' _Team Name_ '' = ''team-name''
   \<and> normaliseName ''_-fds0-_fds-_'' = ''fds0-fds''
   \<and> normaliseName ''test - name'' = ''test-name''
   \<and> normaliseName ''test_name'' = ''test-name''
   \<and> normaliseName ([CHR 0xE2, CHR 0x84, CHR 0xAA] @ ''elvin'') = ''kelvin''
   \<and> normaliseName ([CHR 0xC4, CHR 0xB0] @ ''stanbul'') = ''istanbul''
   \<and> normaliseName ([CHR 0xC3, CHR 0x89] @ ''cole'') = ''cole''"
proof -
  let ?long = "''__Platform  &  Delivery -- Engineering (EU)_''"
  note t1 = rectifyRepoAdminTopics_target[of repo1 ?long]
  note t2 = rectifyRepoAdminTopics_target[of repo2 ?long]
  note t3 = rectifyRepoAdminTopics_target[of repo3 ?long]
  note tl = rectifyRepoAdminTopics_target[of repoLong ?long]
  have a1: "fst (rectifyRepoAdminTopics repo1)" by code_simp
  have b1: "Repo_Topics (snd (rectifyRepoAdminTopics repo1)) =
        [''admin-bar'', ''admin-foo'', ''blue'', ''green'', ''red'']" by code_simp
  have c1: "\<forall>topic\<in>set (Repo_Topics repo1). isLowercase topic" by code_simp
  have a2: "fst (rectifyRepoAdminTopics repo2)" by code_simp
  have b2: "Repo_Topics (snd (rectifyRepoAdminTopics repo2)) =
        [''admin-bar'', ''admin-foo'', ''one'', ''three'', ''two'']" by code_simp
  have a3: "\<not> fst (rectifyRepoAdminTopics repo3)" by code_simp
  have n: "normaliseName ?long = ''platform-delivery-engineering-eu''" by code_simp
  have nl: "length (''admin-'' @ normaliseName ?long) = 38" by (simp add: n)
  have al: "fst (rectifyRepoAdminTopics repoLong)" by code_simp
  have bl: "Repo_Topics (snd (rectifyRepoAdminTopics repoLong)) =
        [''admin-platform-delivery-engineerin'', ''zeta'']" by code_simp
  have h: "hd (normaliseName ?long) = CHR ''p''" "last (normaliseName ?long) = CHR ''u''"
    by (simp_all add: n)
  have v: "normaliseName ''abcdefghijklmnopqrstuvxyz-0123456789goodname'' =
        ''abcdefghijklmnopqrstuvxyz-0123456789goodname''"
    "normaliseName ''this name has spaces'' = ''this-name-has-spaces''"
    "normaliseName ''/:*?!<>|;,[]()^#%&@+={}~.'' = []"
    "normaliseName '' _Team Name_ '' = ''team-name''"
    "normaliseName ''_-fds0-_fds-_'' = ''fds0-fds''"
    "normaliseName ''test - name'' = ''test-name''"
    "normaliseName ''test_name'' = ''test-name''"
    "normaliseName ([CHR 0xE2, CHR 0x84, CHR 0xAA] @ ''elvin'') = ''kelvin''"
    "normaliseName ([CHR 0xC4, CHR 0xB0] @ ''stanbul'') = ''istanbul''"
    "normaliseName ([CHR 0xC3, CHR 0x89] @ ''cole'') = ''cole''"
    by code_simp+
  have s1: "sorted (Repo_Topics (snd (rectifyRepoAdminTopics repo1)))"
    "distinct (Repo_Topics (snd (rectifyRepoAdminTopics repo1)))"
    using t1 a1 by blast+
  have l1: "list_all isLowercase (Repo_Topics repo1)" "list_all isLowercase (wantTopics repo1)"
    using t1 c1 unfolding list_all_iff by blast+
  have e3: "snd (rectifyRepoAdminTopics repo3) = repo3" using t3 a3 by blast
  show ?thesis
    using a1 b1 s1 l1 a2 b2 a3 e3 n nl al bl h v by (intro conjI)
qed
subsection \<open>What UpdateRepoAdminTopics reports\<close>

definition forgeRepos :: Forge where
  "forgeRepos = \<lparr>forge_teams = [], forge_memberships = [], forge_admins = [], forge_users = [],
                 forge_repos = [repo1, repo3], forge_nextID = 1, forge_written = []\<rparr>"

lemma UpdateRepoAdminTopics_always_one:
  "UpdateRepoAdminTopics s orgName repoName d = (Inr res, d') \<Longrightarrow> ReposUpdated res = 1"
  by (auto simp: UpdateRepoAdminTopics_def split: prod.splits sum.splits bool.splits option.splits)

text \<open>
  C5 on the code.  \<open>repo3\<close> already carries its target topics: \<open>UpdateRepoAdminTopics\<close>
  writes nothing, the forge is as before, and the result still says one repo was
  updated; \<open>UpdateAdminTopics\<close> over the same forge counts only \<open>repo1\<close>, the repo it
  wrote.  For \<open>repo1\<close> the one write is made and one is reported.
\<close>

theorem UpdateRepoAdminTopics_reports_one_without_write:
  "\<not> fst (rectifyRepoAdminTopics repo3)
   \<and> UpdateRepoAdminTopics forgeService ''o'' ''repo3'' forgeRepos =
        (Inr \<lparr>ReposUpdated = 1\<rparr>, forgeRepos)
   \<and> fst (UpdateRepoAdminTopics forgeService ''o'' ''repo1'' forgeRepos) = Inr \<lparr>ReposUpdated = 1\<rparr>
   \<and> forge_written (snd (UpdateRepoAdminTopics forgeService ''o'' ''repo1'' forgeRepos)) =
        [CallUpdateRepoTopics ''o'' ''repo1'' [''admin-bar'', ''admin-foo'', ''blue'', ''green'', ''red'']]
   \<and> fst (UpdateAdminTopics forgeService ''o'' forgeRepos) = Inr \<lparr>ReposUpdated = 1\<rparr>
   \<and> forge_written (snd (UpdateAdminTopics forgeService ''o'' forgeRepos)) =
        [CallUpdateRepoTopics ''o'' ''repo1'' [''admin-bar'', ''admin-foo'', ''blue'', ''green'', ''red'']]"
proof -
  have 1: "\<not> fst (rectifyRepoAdminTopics repo3)" by code_simp
  have 2: "UpdateRepoAdminTopics forgeService ''o'' ''repo3'' forgeRepos =
        (Inr \<lparr>ReposUpdated = 1\<rparr>, forgeRepos)" by code_simp
  have 3: "fst (UpdateRepoAdminTopics forgeService ''o'' ''repo1'' forgeRepos) = Inr \<lparr>ReposUpdated = 1\<rparr>"
    by code_simp
  have 4: "forge_written (snd (UpdateRepoAdminTopics forgeService ''o'' ''repo1'' forgeRepos)) =
        [CallUpdateRepoTopics ''o'' ''repo1'' [''admin-bar'', ''admin-foo'', ''blue'', ''green'', ''red'']]"
    by code_simp
  have 5: "fst (UpdateAdminTopics forgeService ''o'' forgeRepos) = Inr \<lparr>ReposUpdated = 1\<rparr>"
    by code_simp
  have 6: "forge_written (snd (UpdateAdminTopics forgeService ''o'' forgeRepos)) =
        [CallUpdateRepoTopics ''o'' ''repo1'' [''admin-bar'', ''admin-foo'', ''blue'', ''green'', ''red'']]"
    by code_simp
  from 1 2 3 4 5 6 show ?thesis by blast
qed
subsection \<open>UpdateTeamAdminTopics\<close>

text \<open>The callback of the walk: a repo that needed rectifying is updated and counted.\<close>

fun updateWalked :: "'d GitHubService \<Rightarrow> string \<Rightarrow> Repo list \<Rightarrow> int \<Rightarrow> (int, 'd) returns" where
  "updateWalked gitHubService orgName [] updatedRepos d = (Inr updatedRepos, d)"
| "updateWalked gitHubService orgName (r # repos) updatedRepos d =
     (case rectifyRepoAdminTopics r of
        (True, r') \<Rightarrow>
          (case UpdateRepoTopics gitHubService orgName (Repo_Name r') (Repo_Topics r') d of
             (Some err, d') \<Rightarrow> (Inl err, d')
           | (None, d') \<Rightarrow> updateWalked gitHubService orgName repos (updatedRepos + 1) d')
      | (False, r') \<Rightarrow> updateWalked gitHubService orgName repos updatedRepos d)"

definition UpdateTeamAdminTopics ::
  "'d GitHubService \<Rightarrow> string \<Rightarrow> GitHubTeamID \<Rightarrow> (UpdateAdminTopicsResult, 'd) returns" where
  "UpdateTeamAdminTopics gitHubService orgName teamID d =
     (case WalkReposByTeam gitHubService orgName teamID d of
        (Inl err, d') \<Rightarrow> (Inl err, d')
      | (Inr repos, d') \<Rightarrow>
          (case updateWalked gitHubService orgName repos 0 d' of
             (Inl err, d'') \<Rightarrow> (Inl err, d'')
           | (Inr updatedRepos, d'') \<Rightarrow> (Inr \<lparr>ReposUpdated = updatedRepos\<rparr>, d'')))"

section \<open>The event worker (ListenForEvents)\<close>

text \<open>
  The message on the queue and the part of go-github's \<open>TeamEvent\<close> that the worker reads.
  Every field of the event is a pointer; \<open>None\<close> is nil.
\<close>

record message =
  InstallationID :: int
  EventType :: string
  DeliveryID :: string
  Payload :: string

type_synonym receiptHandle = string

record HubUser =
  HubUser_Login :: "string option"

record HubRepository =
  HubRepository_Name :: "string option"
  HubRepository_FullName :: "string option"
  HubRepository_Fork :: "bool option"
  HubRepository_Owner :: "HubUser option"

record HubTeam =
  HubTeam_ID :: "int option"
  HubTeam_Name :: "string option"

record HubOrganization =
  HubOrganization_Login :: "string option"

record TeamEvent =
  Event_Action :: "string option"
  Event_Team :: "HubTeam option"
  Event_Repo :: "HubRepository option"
  Event_Org :: "HubOrganization option"

text \<open>
  Modelled from the spec: the queue (SQS behind \<open>sqsiface.SQSAPI\<close>) is not part of the
  repository; its configuration is, in the template of the deployment.  It is the durable
  FIFO queue of the spec with a single message group, and its redrive policy has
  \<open>maxReceiveCount: 5\<close> and a dead-letter queue as target.  The queue holds its messages
  in order, each with its receipt handle, its body and the number of times it has been
  received.  Receiving first moves to the dead-letter queue the messages at the head that
  have been received \<open>maxReceiveCount\<close> times, then hands out the oldest message left, at
  most one, and counts the receive.  Deleting removes the message with the given handle.
  Visibility timeouts are not modelled: a message that is not deleted is handed out again
  by the next receive.
\<close>

definition maxReceiveCount :: nat where
  "maxReceiveCount = 5"

record queued =
  queued_handle :: receiptHandle
  queued_body :: string
  queued_receiveCount :: nat

record queue =
  queue_messages :: "queued list"
  queue_deadLetters :: "queued list"

definition exhausted :: "queued \<Rightarrow> bool" where
  "exhausted m \<longleftrightarrow> queued_receiveCount m \<ge> maxReceiveCount"

definition redrive :: "queue \<Rightarrow> queue" where
  "redrive q =
     \<lparr>queue_messages = dropWhile exhausted (queue_messages q),
      queue_deadLetters = queue_deadLetters q @ takeWhile exhausted (queue_messages q)\<rparr>"

definition ReceiveMessage :: "queue \<Rightarrow> (error + (receiptHandle \<times> string) list) \<times> queue" where
  "ReceiveMessage q =
     (case queue_messages (redrive q) of
        [] \<Rightarrow> (Inr [], redrive q)
      | m # rest \<Rightarrow>
          (Inr [(queued_handle m, queued_body m)],
           (redrive q)\<lparr>queue_messages :=
              m\<lparr>queued_receiveCount := Suc (queued_receiveCount m)\<rparr> # rest\<rparr>))"

definition DeleteMessage :: "receiptHandle \<Rightarrow> queue \<Rightarrow> error option \<times> queue" where
  "DeleteMessage handle q =
     (None, q\<lparr>queue_messages := filter (\<lambda>m. queued_handle m \<noteq> handle) (queue_messages q)\<rparr>)"

definition handles :: "queue \<Rightarrow> receiptHandle list" where
  "handles q = map queued_handle (queue_messages q)"

text \<open>
  \<open>encoding/json\<close> is not part of the repository either: \<open>unmarshalMessage\<close> and
  \<open>unmarshalEvent\<close> stand for \<open>json.Unmarshal\<close> into a \<open>message\<close> and into a \<open>TeamEvent\<close>.
\<close>

record decoders =
  unmarshalMessage :: "string \<Rightarrow> error + message"
  unmarshalEvent :: "string \<Rightarrow> error + TeamEvent"

subsection \<open>queueService\<close>

definition wrapError :: "error \<Rightarrow> string \<Rightarrow> error" where
  "wrapError err msg = OtherError msg"

text \<open>\<open>receive\<close>: no message is \<open>Inr None\<close>.  The queue is returned as the call left it.\<close>

definition receive ::
  "decoders \<Rightarrow> queue \<Rightarrow> (error + (message \<times> receiptHandle) option) \<times> queue" where
  "receive dec q =
     (case ReceiveMessage q of
        (Inl err, q') \<Rightarrow> (Inl (wrapError err ''failed to receive message from sqs''), q')
      | (Inr messages, q') \<Rightarrow>
          (if length messages = 0 then (Inr None, q')
           else if length messages > 1
           then (Inl (OtherError ''received too many messages from sqs''), q')
           else (case hd messages of
                   (handle, body) \<Rightarrow>
                     (case unmarshalMessage dec body of
                        Inl err \<Rightarrow> (Inl (wrapError err ''failed to unmarshal sqs message''), q')
                      | Inr m \<Rightarrow> (Inr (Some (m, handle)), q')))))"

definition delete :: "receiptHandle \<Rightarrow> queue \<Rightarrow> error option \<times> queue" where
  "delete handle q =
     (if handle = [] then (None, q)
      else (case DeleteMessage handle q of
              (Some err, q') \<Rightarrow> (Some (wrapError err ''failed to delete message from sqs''), q')
            | (None, q') \<Rightarrow> (None, q')))"

subsection \<open>The log\<close>

text \<open>
  The log holds the events that the worker sends to its logger: the level, the error
  attached with \<open>Err\<close> and the message.  An event is sent by \<open>Msg\<close> or \<open>Msgf\<close>; an event
  that is built and never sent writes nothing.
\<close>

datatype level = InfoLevel | WarnLevel | ErrorLevel

record logEvent =
  logEvent_level :: level
  logEvent_err :: "error option"
  logEvent_message :: string

text \<open>
  The worker's state: the queue, the service, and the log.  An iteration of the loop
  either goes on, or sends an error to \<open>errChan\<close> and returns, or panics on a nil pointer.
\<close>

record 'd worker =
  worker_queue :: queue
  worker_service :: 'd
  worker_logged :: "logEvent list"

datatype 'd iteration = Continue "'d worker" | Return error "'d worker" | Panicked "'d worker"

definition Msgf :: "level \<Rightarrow> error option \<Rightarrow> string \<Rightarrow> 'd worker \<Rightarrow> 'd worker" where
  "Msgf l err msg w =
     w\<lparr>worker_logged := worker_logged w @
          [\<lparr>logEvent_level = l, logEvent_err = err, logEvent_message = msg\<rparr>]\<rparr>"

text \<open>\<open>zerolog.Ctx(ctx).Error().Err(err)\<close> with nothing after it.\<close>

definition unsent :: "level \<Rightarrow> error option \<Rightarrow> 'd worker \<Rightarrow> 'd worker" where
  "unsent l err w = w"

subsection \<open>The loop\<close>

text \<open>Deleting the message, with the log line of a failed delete.\<close>

definition deleteLogged :: "receiptHandle \<Rightarrow> 'd worker \<Rightarrow> 'd iteration" where
  "deleteLogged handle w =
     (case delete handle (worker_queue w) of
        (Some e, q') \<Rightarrow>
          Continue (Msgf ErrorLevel (Some e) ''failed to delete message'' (w\<lparr>worker_queue := q'\<rparr>))
      | (None, q') \<Rightarrow> Continue (w\<lparr>worker_queue := q'\<rparr>))"

text \<open>The closing lines of the loop body: the error of the dispatch goes into an event
  that is not sent, then the message is deleted.\<close>

definition finish :: "error option \<Rightarrow> receiptHandle \<Rightarrow> 'd worker \<Rightarrow> 'd iteration" where
  "finish err handle w =
     deleteLogged handle (case err of None \<Rightarrow> w | Some e \<Rightarrow> unsent ErrorLevel (Some e) w)"

text \<open>The dereferences \<open>*event.Repo.Name\<close>, \<open>*event.Repo.Owner.Login\<close> and so on: \<open>None\<close>
  is the nil-pointer panic.\<close>

definition eventRepoName :: "TeamEvent \<Rightarrow> string option" where
  "eventRepoName event = (case Event_Repo event of None \<Rightarrow> None | Some repo \<Rightarrow> HubRepository_Name repo)"

definition eventRepoOwnerLogin :: "TeamEvent \<Rightarrow> string option" where
  "eventRepoOwnerLogin event =
     (case Event_Repo event of
        None \<Rightarrow> None
      | Some repo \<Rightarrow> (case HubRepository_Owner repo of None \<Rightarrow> None | Some owner \<Rightarrow> HubUser_Login owner))"

definition eventTeamName :: "TeamEvent \<Rightarrow> string option" where
  "eventTeamName event = (case Event_Team event of None \<Rightarrow> None | Some team \<Rightarrow> HubTeam_Name team)"

definition eventTeamID :: "TeamEvent \<Rightarrow> int option" where
  "eventTeamID event = (case Event_Team event of None \<Rightarrow> None | Some team \<Rightarrow> HubTeam_ID team)"

definition eventOrgLogin :: "TeamEvent \<Rightarrow> string option" where
  "eventOrgLogin event = (case Event_Org event of None \<Rightarrow> None | Some org \<Rightarrow> HubOrganization_Login org)"

text \<open>A dispatched call keeps only its error; the service moves on.\<close>

definition dispatched :: "(error + 'a) \<times> 'd \<Rightarrow> receiptHandle \<Rightarrow> 'd worker \<Rightarrow> 'd iteration" where
  "dispatched r handle w =
     (case r of
        (Inl err, d) \<Rightarrow> finish (Some err) handle (w\<lparr>worker_service := d\<rparr>)
      | (Inr v, d) \<Rightarrow> finish None handle (w\<lparr>worker_service := d\<rparr>))"

definition unknownCommand :: "string \<Rightarrow> error" where
  "unknownCommand action = OtherError (''don'' @ [CHR 0x27] @ ''t recognise command '' @ action)"

text \<open>
  The switch on the action, up to the end of the loop body.  The arguments of a log line
  and of a call are dereferenced before it; the log line of the first case names the repo
  where its text says team, as the source passes them.
\<close>

definition dispatch ::
  "'d GitHubService \<Rightarrow> TeamEvent \<Rightarrow> string \<Rightarrow> receiptHandle \<Rightarrow> 'd worker \<Rightarrow> 'd iteration" where
  "dispatch gitHubService event action handle w =
     (if action = ''added_to_repository'' \<or> action = ''removed_from_repository'' then
        (case (eventRepoName event, eventTeamName event) of
           (Some name, Some team) \<Rightarrow>
             (let w1 = Msgf InfoLevel None
                         (''Received team update event for team '' @ name @ '' on repo '' @ team) w
              in case eventRepoOwnerLogin event of
                   None \<Rightarrow> Panicked w1
                 | Some owner \<Rightarrow>
                     dispatched (UpdateRepoAdminTopics gitHubService owner name (worker_service w1))
                       handle w1)
         | _ \<Rightarrow> Panicked w)
      else if action = ''edited'' then
        (case eventTeamName event of
           None \<Rightarrow> Panicked w
         | Some team \<Rightarrow>
             (let w1 = Msgf InfoLevel None (''Received team update event for team '' @ team) w
              in if Event_Repo event \<noteq> None then
                   (case (eventRepoOwnerLogin event, eventRepoName event) of
                      (Some owner, Some name) \<Rightarrow>
                        dispatched (UpdateRepoAdminTopics gitHubService owner name (worker_service w1))
                          handle w1
                    | _ \<Rightarrow> Panicked w1)
                 else
                   (case (eventOrgLogin event, eventTeamID event) of
                      (Some org, Some tid) \<Rightarrow>
                        dispatched (UpdateTeamAdminTopics gitHubService org tid (worker_service w1))
                          handle w1
                    | _ \<Rightarrow> Panicked w1)))
      else if action = ''created'' \<or> action = ''deleted'' then finish None handle w
      else finish (Some (unknownCommand action)) handle w)"

text \<open>One iteration of the \<open>for\<close> loop.\<close>

definition iterate :: "decoders \<Rightarrow> 'd GitHubService \<Rightarrow> 'd worker \<Rightarrow> 'd iteration" where
  "iterate dec gitHubService w =
     (case receive dec (worker_queue w) of
        (Inl err, q) \<Rightarrow> Return err (unsent ErrorLevel (Some err) (w\<lparr>worker_queue := q\<rparr>))
      | (Inr None, q) \<Rightarrow> Continue (w\<lparr>worker_queue := q\<rparr>)
      | (Inr (Some (m, handle)), q) \<Rightarrow>
          (let w0 = w\<lparr>worker_queue := q\<rparr>
           in case unmarshalEvent dec (Payload m) of
                Inl err \<Rightarrow> Continue (Msgf ErrorLevel (Some err) ''Failed to unmarshal message'' w0)
              | Inr event \<Rightarrow>
                  (case Event_Repo event of
                     None \<Rightarrow>
                       (case Event_Action event of
                          None \<Rightarrow> finish None handle w0
                        | Some action \<Rightarrow> dispatch gitHubService event action handle w0)
                   | Some repo \<Rightarrow>
                       (case HubRepository_Fork repo of
                          None \<Rightarrow> Panicked w0
                        | Some True \<Rightarrow>
                            (case HubRepository_FullName repo of
                               None \<Rightarrow> Panicked w0
                             | Some fullName \<Rightarrow>
                                 deleteLogged handle
                                   (Msgf WarnLevel None (''Skipping repo '' @ fullName) w0))
                        | Some False \<Rightarrow>
                            (case Event_Action event of
                               None \<Rightarrow> finish None handle w0
                             | Some action \<Rightarrow> dispatch gitHubService event action handle w0)))))"

text \<open>
  The loop has no exit of its own; \<open>listen n\<close> runs at most \<open>n\<close> iterations and gives
  \<open>None\<close> when the loop is still running after them.
\<close>

fun listen :: "nat \<Rightarrow> decoders \<Rightarrow> 'd GitHubService \<Rightarrow> 'd worker \<Rightarrow> 'd iteration option \<times> 'd worker" where
  "listen 0 dec gitHubService w = (None, w)"
| "listen (Suc n) dec gitHubService w =
     (case iterate dec gitHubService w of
        Continue w' \<Rightarrow> listen n dec gitHubService w'
      | Return err w' \<Rightarrow> (Some (Return err w'), w')
      | Panicked w' \<Rightarrow> (Some (Panicked w'), w'))"

text \<open>
  \<open>ListenForEvents\<close>: the start line of the log, the queue service (\<open>newQueueService\<close>
  opens a session of the cloud provider, which may fail), then the loop.
\<close>

definition ListenForEvents ::
  "nat \<Rightarrow> decoders \<Rightarrow> 'd GitHubService \<Rightarrow> error + queue \<Rightarrow> 'd \<Rightarrow>
   (error option \<times> logEvent list) + ('d iteration option \<times> 'd worker)" where
  "ListenForEvents n dec gitHubService newQueueService d =
     (let started = [\<lparr>logEvent_level = InfoLevel, logEvent_err = None,
                      logEvent_message = ''Starting queue service''\<rparr>]
      in case newQueueService of
           Inl err \<Rightarrow> Inl (Some err, started)
         | Inr q \<Rightarrow>
             Inr (listen n dec gitHubService
                    \<lparr>worker_queue = q, worker_service = d, worker_logged = started\<rparr>))"

subsection \<open>Which messages an iteration deletes\<close>

lemma redrive_head:
  "queue_messages q = m # rest \<Longrightarrow> \<not> exhausted m \<Longrightarrow> redrive q = q"
  by (simp add: redrive_def)

lemma ReceiveMessage_head:
  "ReceiveMessage q = (Inr [(handle, body)], q') \<Longrightarrow> handle \<in> set (handles q')"
  by (auto simp: ReceiveMessage_def handles_def split: list.splits)

lemma receive_head:
  assumes "receive dec q = (Inr (Some (m, handle)), q')"
  shows "handle \<in> set (handles q')"
proof -
  obtain r q1 where rm: "ReceiveMessage q = (r, q1)" by (cases "ReceiveMessage q") auto
  with assms obtain body where "r = Inr [(handle, body)]" and "q1 = q'"
    by (cases r; cases "projr r"; cases "tl (projr r)")
       (auto simp: receive_def split: if_splits sum.splits prod.splits)
  with rm show ?thesis using ReceiveMessage_head by blast
qed

lemma delete_removes:
  "handle \<noteq> [] \<Longrightarrow> handle \<notin> set (handles (snd (delete handle q)))"
  by (auto simp: delete_def DeleteMessage_def handles_def)

lemma delete_deadLetters:
  "queue_deadLetters (snd (delete handle q)) = queue_deadLetters q"
  by (auto simp: delete_def DeleteMessage_def)

definition deleted :: "receiptHandle \<Rightarrow> 'd iteration \<Rightarrow> bool" where
  "deleted handle i \<longleftrightarrow>
     (case i of
        Continue w' \<Rightarrow> handle \<notin> set (handles (worker_queue w'))
      | Return err w' \<Rightarrow> False
      | Panicked w' \<Rightarrow> False)"

definition panicked :: "'d iteration \<Rightarrow> bool" where
  "panicked i \<longleftrightarrow> (case i of Panicked w' \<Rightarrow> True | _ \<Rightarrow> False)"

lemma deleteLogged_deleted:
  "handle \<noteq> [] \<Longrightarrow> deleted handle (deleteLogged handle w)"
  using delete_removes[of handle "worker_queue w"]
  by (auto simp: deleteLogged_def deleted_def Msgf_def split: prod.splits option.splits)

lemma finish_deleted:
  "handle \<noteq> [] \<Longrightarrow> deleted handle (finish err handle w)"
  by (simp add: finish_def deleteLogged_deleted)

lemma dispatched_deleted:
  "handle \<noteq> [] \<Longrightarrow> deleted handle (dispatched r handle w)"
  by (auto simp: dispatched_def finish_deleted split: prod.splits sum.splits)

lemma dispatch_deleted:
  "handle \<noteq> [] \<Longrightarrow>
   deleted handle (dispatch s event action handle w) \<or> panicked (dispatch s event action handle w)"
  by (auto simp: dispatch_def Let_def finish_deleted dispatched_deleted panicked_def
      split: option.splits)

lemma iterate_parsed:
  assumes "receive dec (worker_queue w) = (Inr (Some (m, handle)), q)"
    and "unmarshalEvent dec (Payload m) = Inr event"
    and "handle \<noteq> []"
  shows "deleted handle (iterate dec s w) \<or> panicked (iterate dec s w)"
proof -
  let ?w0 = "w\<lparr>worker_queue := q\<rparr>"
  have f: "deleted handle (finish None handle ?w0)"
    using assms(3) by (rule finish_deleted)
  have d: "deleted handle (dispatch s event action handle ?w0) \<or>
           panicked (dispatch s event action handle ?w0)" for action
    using assms(3) by (rule dispatch_deleted)
  have k: "deleted handle (deleteLogged handle (Msgf WarnLevel None msg ?w0))" for msg
    using assms(3) by (rule deleteLogged_deleted)
  show ?thesis
    using assms(1,2) f d k
    by (auto simp: iterate_def Let_def panicked_def split: option.splits bool.splits)
qed

lemma iterate_unparsed:
  assumes "receive dec (worker_queue w) = (Inr (Some (m, handle)), q)"
    and "unmarshalEvent dec (Payload m) = Inl err"
  shows "iterate dec s w =
           Continue (Msgf ErrorLevel (Some err) ''Failed to unmarshal message'' (w\<lparr>worker_queue := q\<rparr>))"
  using assms by (simp add: iterate_def)

text \<open>
  The pointers that the loop body dereferences for an event: for the actions with a
  dispatch the names, the owner, the org and the team id that the log line and the call
  take; before that the fork flag of the repo, and the full name of a fork.
\<close>

definition completeFor :: "TeamEvent \<Rightarrow> string \<Rightarrow> bool" where
  "completeFor event action \<longleftrightarrow>
     (if action = ''added_to_repository'' \<or> action = ''removed_from_repository''
      then eventRepoName event \<noteq> None \<and> eventTeamName event \<noteq> None \<and>
           eventRepoOwnerLogin event \<noteq> None
      else if action = ''edited''
      then eventTeamName event \<noteq> None \<and>
           (if Event_Repo event \<noteq> None
            then eventRepoOwnerLogin event \<noteq> None \<and> eventRepoName event \<noteq> None
            else eventOrgLogin event \<noteq> None \<and> eventTeamID event \<noteq> None)
      else True)"

definition completeAction :: "TeamEvent \<Rightarrow> bool" where
  "completeAction event \<longleftrightarrow>
     (case Event_Action event of None \<Rightarrow> True | Some action \<Rightarrow> completeFor event action)"

definition completeEvent :: "TeamEvent \<Rightarrow> bool" where
  "completeEvent event \<longleftrightarrow>
     (case Event_Repo event of
        None \<Rightarrow> completeAction event
      | Some repo \<Rightarrow>
          (case HubRepository_Fork repo of
             None \<Rightarrow> False
           | Some True \<Rightarrow> HubRepository_FullName repo \<noteq> None
           | Some False \<Rightarrow> completeAction event))"

lemma dispatch_cases:
  "dispatch s event action handle w =
     (if action = ''added_to_repository'' \<or> action = ''removed_from_repository'' then
        (case (eventRepoName event, eventTeamName event) of
           (Some name, Some team) \<Rightarrow>
             (let w1 = Msgf InfoLevel None
                         (''Received team update event for team '' @ name @ '' on repo '' @ team) w
              in case eventRepoOwnerLogin event of
                   None \<Rightarrow> Panicked w1
                 | Some owner \<Rightarrow>
                     dispatched (UpdateRepoAdminTopics s owner name (worker_service w1))
                       handle w1)
         | _ \<Rightarrow> Panicked w)
      else if action = ''edited'' then
        (case eventTeamName event of
           None \<Rightarrow> Panicked w
         | Some team \<Rightarrow>
             (let w1 = Msgf InfoLevel None (''Received team update event for team '' @ team) w
              in if Event_Repo event \<noteq> None then
                   (case (eventRepoOwnerLogin event, eventRepoName event) of
                      (Some owner, Some name) \<Rightarrow>
                        dispatched (UpdateRepoAdminTopics s owner name (worker_service w1))
                          handle w1
                    | _ \<Rightarrow> Panicked w1)
                 else
                   (case (eventOrgLogin event, eventTeamID event) of
                      (Some org, Some tid) \<Rightarrow>
                        dispatched (UpdateTeamAdminTopics s org tid (worker_service w1))
                          handle w1
                    | _ \<Rightarrow> Panicked w1)))
      else finish (if action = ''created'' \<or> action = ''deleted'' then None
                   else Some (unknownCommand action)) handle w)"
  unfolding dispatch_def by (simp only: if_distrib[of "\<lambda>e. finish e handle w"] if_cancel)

lemma dispatch_complete:
  assumes "handle \<noteq> []" and c: "completeFor event action"
  shows "deleted handle (dispatch s event action handle w)"
proof -
  let ?repo = "action = ''added_to_repository'' \<or> action = ''removed_from_repository''"
  let ?edited = "action = ''edited''"
  consider (repo) ?repo | (edited) "\<not> ?repo" ?edited | (other) "\<not> ?repo" "\<not> ?edited"
    by blast
  then show ?thesis
  proof cases
    case repo
    from c have "eventRepoName event \<noteq> None \<and> eventTeamName event \<noteq> None \<and>
        eventRepoOwnerLogin event \<noteq> None"
      unfolding completeFor_def by (simp only: repo if_True simp_thms)
    then obtain name team owner where "eventRepoName event = Some name"
      "eventTeamName event = Some team" "eventRepoOwnerLogin event = Some owner" by blast
    then show ?thesis
      by (simp only: dispatch_cases repo if_True) (simp add: Let_def dispatched_deleted assms(1))
  next
    case edited
    from c have e: "eventTeamName event \<noteq> None \<and>
           (if Event_Repo event \<noteq> None
            then eventRepoOwnerLogin event \<noteq> None \<and> eventRepoName event \<noteq> None
            else eventOrgLogin event \<noteq> None \<and> eventTeamID event \<noteq> None)"
      unfolding completeFor_def by (simp add: edited)
    then obtain team where t: "eventTeamName event = Some team" by blast
    show ?thesis
    proof (cases "Event_Repo event \<noteq> None")
      case True
      with e obtain owner name where "eventRepoOwnerLogin event = Some owner"
        "eventRepoName event = Some name" by auto
      with True t show ?thesis
        by (simp add: dispatch_cases edited Let_def dispatched_deleted assms(1))
    next
      case False
      with e obtain org tid where "eventOrgLogin event = Some org"
        "eventTeamID event = Some tid" by auto
      with False t show ?thesis
        by (simp add: dispatch_cases edited Let_def dispatched_deleted assms(1))
    qed
  next
    case other
    then show ?thesis
      by (simp only: dispatch_cases if_False) (rule finish_deleted[OF assms(1)])
  qed
qed

lemma dispatch_incomplete:
  assumes c: "\<not> completeFor event action"
  shows "panicked (dispatch s event action handle w)"
proof -
  let ?repo = "action = ''added_to_repository'' \<or> action = ''removed_from_repository''"
  let ?edited = "action = ''edited''"
  consider (repo) ?repo | (edited) "\<not> ?repo" ?edited | (other) "\<not> ?repo" "\<not> ?edited"
    by blast
  then show ?thesis
  proof cases
    case repo
    from c have "\<not> (eventRepoName event \<noteq> None \<and> eventTeamName event \<noteq> None \<and>
        eventRepoOwnerLogin event \<noteq> None)"
      unfolding completeFor_def by (simp only: repo if_True simp_thms)
    then have "eventRepoName event = None \<or> eventTeamName event = None \<or>
        eventRepoOwnerLogin event = None" by blast
    then show ?thesis
      by (simp only: dispatch_cases repo if_True)
         (auto simp: panicked_def Let_def split: option.splits)
  next
    case edited
    from c have e: "\<not> (eventTeamName event \<noteq> None \<and>
           (if Event_Repo event \<noteq> None
            then eventRepoOwnerLogin event \<noteq> None \<and> eventRepoName event \<noteq> None
            else eventOrgLogin event \<noteq> None \<and> eventTeamID event \<noteq> None))"
      unfolding completeFor_def by (simp add: edited)
    then show ?thesis
      by (simp add: dispatch_cases edited)
         (auto simp: panicked_def Let_def split: option.splits if_splits)
  next
    case other
    with c show ?thesis
      unfolding completeFor_def by (simp only: if_False simp_thms)
  qed
qed

lemma iterate_complete:
  assumes "receive dec (worker_queue w) = (Inr (Some (m, handle)), q)"
    and "unmarshalEvent dec (Payload m) = Inr event"
    and "handle \<noteq> []"
    and "completeEvent event"
  shows "deleted handle (iterate dec s w)"
proof -
  let ?w0 = "w\<lparr>worker_queue := q\<rparr>"
  have f: "deleted handle (finish None handle ?w0)"
    using assms(3) by (rule finish_deleted)
  have k: "deleted handle (deleteLogged handle (Msgf WarnLevel None msg ?w0))" for msg
    using assms(3) by (rule deleteLogged_deleted)
  have d: "completeFor event action \<Longrightarrow> deleted handle (dispatch s event action handle ?w0)"
    for action
    using assms(3) by (rule dispatch_complete)
  show ?thesis
    using assms(1,2,4) f k d
    by (auto simp: iterate_def Let_def completeEvent_def completeAction_def
        split: option.splits bool.splits)
qed

lemma iterate_incomplete:
  assumes "receive dec (worker_queue w) = (Inr (Some (m, handle)), q)"
    and "unmarshalEvent dec (Payload m) = Inr event"
    and "\<not> completeEvent event"
  shows "panicked (iterate dec s w)"
proof -
  let ?w0 = "w\<lparr>worker_queue := q\<rparr>"
  have d: "\<not> completeFor event action \<Longrightarrow> panicked (dispatch s event action handle ?w0)"
    for action
    by (rule dispatch_incomplete)
  have p: "panicked (Panicked ?w0)" by (simp add: panicked_def)
  show ?thesis
    using assms d p
    by (auto simp: iterate_def Let_def completeEvent_def completeAction_def
        split: option.splits bool.splits)
qed

subsection \<open>A message that is not deleted\<close>

lemma receive_head_message:
  assumes "queue_messages q = x # rest" and "\<not> exhausted x"
    and "unmarshalMessage dec (queued_body x) = Inr m"
  shows "receive dec q =
           (Inr (Some (m, queued_handle x)),
            q\<lparr>queue_messages := x\<lparr>queued_receiveCount := Suc (queued_receiveCount x)\<rparr> # rest\<rparr>)"
  using assms by (simp add: receive_def ReceiveMessage_def redrive_head)

lemma redrive_exhausted:
  assumes "queue_messages q = x # rest" and "exhausted x"
  shows "redrive q =
           redrive (q\<lparr>queue_messages := rest, queue_deadLetters := queue_deadLetters q @ [x]\<rparr>)"
  using assms by (simp add: redrive_def)

lemma ReceiveMessage_redrive:
  assumes "queue_messages q = x # rest" and "exhausted x"
  shows "ReceiveMessage q =
           ReceiveMessage (q\<lparr>queue_messages := rest, queue_deadLetters := queue_deadLetters q @ [x]\<rparr>)"
  unfolding ReceiveMessage_def redrive_exhausted[OF assms] ..

definition unparsed :: "error \<Rightarrow> logEvent" where
  "unparsed err = \<lparr>logEvent_level = ErrorLevel, logEvent_err = Some err,
                    logEvent_message = ''Failed to unmarshal message''\<rparr>"

lemma listen_unparsed:
  "queue_messages (worker_queue w) = x # rest \<Longrightarrow>
   queued_receiveCount x + n \<le> maxReceiveCount \<Longrightarrow>
   unmarshalMessage dec (queued_body x) = Inr m \<Longrightarrow>
   unmarshalEvent dec (Payload m) = Inl err \<Longrightarrow>
   listen n dec s w =
     (None, w\<lparr>worker_queue := (worker_queue w)\<lparr>queue_messages :=
                 x\<lparr>queued_receiveCount := queued_receiveCount x + n\<rparr> # rest\<rparr>,
              worker_logged := worker_logged w @ replicate n (unparsed err)\<rparr>)"
proof (induction n arbitrary: w x)
  case 0
  then show ?case by simp
next
  case (Suc n)
  let ?x = "x\<lparr>queued_receiveCount := Suc (queued_receiveCount x)\<rparr>"
  let ?q = "(worker_queue w)\<lparr>queue_messages := ?x # rest\<rparr>"
  let ?w = "Msgf ErrorLevel (Some err) ''Failed to unmarshal message'' (w\<lparr>worker_queue := ?q\<rparr>)"
  from Suc.prems(2) have "\<not> exhausted x" by (simp add: exhausted_def)
  with Suc.prems have "receive dec (worker_queue w) = (Inr (Some (m, queued_handle x)), ?q)"
    by (simp add: receive_head_message)
  from this Suc.prems(4) have i: "iterate dec s w = Continue ?w"
    by (rule iterate_unparsed)
  have "listen n dec s ?w =
     (None, ?w\<lparr>worker_queue := (worker_queue ?w)\<lparr>queue_messages :=
                 ?x\<lparr>queued_receiveCount := queued_receiveCount ?x + n\<rparr> # rest\<rparr>,
              worker_logged := worker_logged ?w @ replicate n (unparsed err)\<rparr>)"
    using Suc.prems by (intro Suc.IH) (simp_all add: Msgf_def)
  then show ?case
    by (simp add: i Msgf_def unparsed_def)
qed

text \<open>
  C6, amended.  A received message (with a receipt handle) whose payload parses is
  deleted at the end of the iteration, whatever the dispatch gave: a failed or a
  successful update, an unrecognised action, an action without a dispatch, a fork that is
  skipped; only an event that lacks a pointer that the loop body dereferences panics
  instead.  A received message whose payload does not parse is logged with
  \<open>Failed to unmarshal message\<close> and is not deleted: it is still on the queue after the
  iteration, the worker receives it and logs it again at every iteration until it has
  been received \<open>maxReceiveCount\<close> times, and the next receive moves it to the
  dead-letter queue.
\<close>

theorem ListenForEvents_deletes_parsed_message:
  assumes "receive dec (worker_queue w) = (Inr (Some (m, handle)), q)" and "handle \<noteq> []"
  shows "(unmarshalEvent dec (Payload m) = Inr event \<longrightarrow>
            (if completeEvent event then deleted handle (iterate dec s w)
             else panicked (iterate dec s w)))
       \<and> deleted handle (dispatched outcome handle wd)
       \<and> deleted handle (finish e handle wd)
       \<and> (unmarshalEvent dec (Payload m) = Inl err \<longrightarrow>
            iterate dec s w =
              Continue (Msgf ErrorLevel (Some err) ''Failed to unmarshal message''
                          (w\<lparr>worker_queue := q\<rparr>)) \<and>
            handle \<in> set (handles q))
       \<and> (queue_messages (worker_queue wu) = x # rest \<longrightarrow>
            queued_receiveCount x + n \<le> maxReceiveCount \<longrightarrow>
            unmarshalMessage dec (queued_body x) = Inr mu \<longrightarrow>
            unmarshalEvent dec (Payload mu) = Inl erru \<longrightarrow>
            listen n dec s wu =
              (None, wu\<lparr>worker_queue := (worker_queue wu)\<lparr>queue_messages :=
                           x\<lparr>queued_receiveCount := queued_receiveCount x + n\<rparr> # rest\<rparr>,
                        worker_logged := worker_logged wu @ replicate n (unparsed erru)\<rparr>))
       \<and> (queue_messages qd = xd # restd \<longrightarrow> exhausted xd \<longrightarrow>
            ReceiveMessage qd =
              ReceiveMessage (qd\<lparr>queue_messages := restd,
                                queue_deadLetters := queue_deadLetters qd @ [xd]\<rparr>))"
proof (intro conjI impI)
  assume "unmarshalEvent dec (Payload m) = Inr event"
  with assms show "if completeEvent event then deleted handle (iterate dec s w)
       else panicked (iterate dec s w)"
    using iterate_complete[of dec w m handle q event s]
      iterate_incomplete[of dec w m handle q event s]
    by (cases "completeEvent event") simp_all
next
  show "deleted handle (dispatched outcome handle wd)"
    using assms(2) by (rule dispatched_deleted)
next
  show "deleted handle (finish e handle wd)"
    using assms(2) by (rule finish_deleted)
next
  assume "unmarshalEvent dec (Payload m) = Inl err"
  with assms(1) show "iterate dec s w =
      Continue (Msgf ErrorLevel (Some err) ''Failed to unmarshal message'' (w\<lparr>worker_queue := q\<rparr>))"
    by (rule iterate_unparsed)
next
  from assms(1) show "handle \<in> set (handles q)" by (rule receive_head)
next
  assume "queue_messages (worker_queue wu) = x # rest"
    and "queued_receiveCount x + n \<le> maxReceiveCount"
    and "unmarshalMessage dec (queued_body x) = Inr mu"
    and "unmarshalEvent dec (Payload mu) = Inl erru"
  then show "listen n dec s wu =
              (None, wu\<lparr>worker_queue := (worker_queue wu)\<lparr>queue_messages :=
                           x\<lparr>queued_receiveCount := queued_receiveCount x + n\<rparr> # rest\<rparr>,
                        worker_logged := worker_logged wu @ replicate n (unparsed erru)\<rparr>)"
    by (rule listen_unparsed)
next
  assume "queue_messages qd = xd # restd" and "exhausted xd"
  then show "ReceiveMessage qd =
      ReceiveMessage (qd\<lparr>queue_messages := restd, queue_deadLetters := queue_deadLetters qd @ [xd]\<rparr>)"
    by (rule ReceiveMessage_redrive)
qed

subsection \<open>Examples\<close>

text \<open>
  For the examples: the body of a queue message is its payload, and the payloads that
  parse are the ones listed here, each with the event it gives.
\<close>

definition teamFoo :: HubTeam where
  "teamFoo = \<lparr>HubTeam_ID = Some 1, HubTeam_Name = Some ''Foo''\<rparr>"

definition orgO :: HubOrganization where
  "orgO = \<lparr>HubOrganization_Login = Some ''o''\<rparr>"

definition hubRepo :: "string \<Rightarrow> bool \<Rightarrow> HubRepository" where
  "hubRepo name fork =
     \<lparr>HubRepository_Name = Some name, HubRepository_FullName = Some (''o/'' @ name),
      HubRepository_Fork = Some fork, HubRepository_Owner = Some \<lparr>HubUser_Login = Some ''o''\<rparr>\<rparr>"

definition teamEvent :: "string \<Rightarrow> HubRepository option \<Rightarrow> TeamEvent" where
  "teamEvent action repo =
     \<lparr>Event_Action = Some action, Event_Team = Some teamFoo, Event_Repo = repo,
      Event_Org = Some orgO\<rparr>"

definition examplePayloads :: "(string \<times> TeamEvent) list" where
  "examplePayloads =
     [(''created'', teamEvent ''created'' None),
      (''renamed'', teamEvent ''renamed'' None),
      (''added repo1'', teamEvent ''added_to_repository'' (Some (hubRepo ''repo1'' False))),
      (''added repo9'', teamEvent ''added_to_repository'' (Some (hubRepo ''repo9'' False))),
      (''added fork'', teamEvent ''added_to_repository'' (Some (hubRepo ''fork'' True))),
      (''no team'', \<lparr>Event_Action = Some ''edited'', Event_Team = None, Event_Repo = None,
                      Event_Org = Some orgO\<rparr>)]"

definition exampleDecoders :: decoders where
  "exampleDecoders =
     \<lparr>unmarshalMessage = (\<lambda>body.
        Inr \<lparr>InstallationID = 0, EventType = ''team'', DeliveryID = [], Payload = body\<rparr>),
      unmarshalEvent = (\<lambda>payload.
        case map_of examplePayloads payload of
          None \<Rightarrow> Inl (OtherError ''invalid character'')
        | Some event \<Rightarrow> Inr event)\<rparr>"

definition fresh :: "receiptHandle \<times> string \<Rightarrow> queued" where
  "fresh hb = \<lparr>queued_handle = fst hb, queued_body = snd hb, queued_receiveCount = 0\<rparr>"

definition workerWith :: "(receiptHandle \<times> string) list \<Rightarrow> Forge worker" where
  "workerWith messages =
     \<lparr>worker_queue = \<lparr>queue_messages = map fresh messages, queue_deadLetters = []\<rparr>,
      worker_service = forgeRepos, worker_logged = []\<rparr>"

definition workerLeft :: "queued list \<Rightarrow> queued list \<Rightarrow> logEvent list \<Rightarrow> Forge worker" where
  "workerLeft messages deadLetters logged =
     \<lparr>worker_queue = \<lparr>queue_messages = messages, queue_deadLetters = deadLetters\<rparr>,
      worker_service = forgeRepos, worker_logged = logged\<rparr>"

definition bodyOf :: "string \<Rightarrow> message" where
  "bodyOf payload = \<lparr>InstallationID = 0, EventType = ''team'', DeliveryID = [], Payload = payload\<rparr>"

definition garbled :: error where
  "garbled = OtherError ''invalid character''"

theorem ListenForEvents_deletes_parsed_message_witness:
  "receive exampleDecoders (worker_queue (workerWith [(''h3'', ''added repo9'')])) =
     (Inr (Some (bodyOf ''added repo9'', ''h3'')),
      \<lparr>queue_messages = [\<lparr>queued_handle = ''h3'', queued_body = ''added repo9'',
                           queued_receiveCount = 1\<rparr>],
       queue_deadLetters = []\<rparr>)
   \<and> unmarshalEvent exampleDecoders (Payload (bodyOf ''added repo9'')) =
        Inr (teamEvent ''added_to_repository'' (Some (hubRepo ''repo9'' False)))
   \<and> completeEvent (teamEvent ''added_to_repository'' (Some (hubRepo ''repo9'' False)))
   \<and> fst (UpdateRepoAdminTopics forgeService ''o'' ''repo9'' forgeRepos) = Inl notFound
   \<and> deleted ''h3'' (iterate exampleDecoders forgeService (workerWith [(''h3'', ''added repo9'')]))
   \<and> iterate exampleDecoders forgeService (workerWith [(''h3'', ''added repo9'')]) =
        Continue (workerLeft [] []
          [\<lparr>logEvent_level = InfoLevel, logEvent_err = None,
            logEvent_message = ''Received team update event for team repo9 on repo Foo''\<rparr>])
   \<and> deleted ''h3'' (iterate exampleDecoders forgeService (workerWith [(''h3'', ''added repo1'')]))
   \<and> forge_written (worker_service (snd (listen 1 exampleDecoders forgeService
        (workerWith [(''h3'', ''added repo1'')])))) =
        [CallUpdateRepoTopics ''o'' ''repo1''
           [''admin-bar'', ''admin-foo'', ''blue'', ''green'', ''red'']]
   \<and> deleted ''h3'' (iterate exampleDecoders forgeService (workerWith [(''h3'', ''renamed'')]))
   \<and> deleted ''h3'' (iterate exampleDecoders forgeService (workerWith [(''h3'', ''created'')]))
   \<and> iterate exampleDecoders forgeService (workerWith [(''h3'', ''added fork'')]) =
        Continue (workerLeft [] []
          [\<lparr>logEvent_level = WarnLevel, logEvent_err = None,
            logEvent_message = ''Skipping repo o/fork''\<rparr>])
   \<and> \<not> completeEvent \<lparr>Event_Action = Some ''edited'', Event_Team = None, Event_Repo = None,
                        Event_Org = Some orgO\<rparr>
   \<and> panicked (iterate exampleDecoders forgeService (workerWith [(''h3'', ''no team'')]))
   \<and> receive exampleDecoders
        (worker_queue (workerWith [(''h1'', ''garbage''), (''h2'', ''created'')])) =
     (Inr (Some (bodyOf ''garbage'', ''h1'')),
      \<lparr>queue_messages = [\<lparr>queued_handle = ''h1'', queued_body = ''garbage'',
                           queued_receiveCount = 1\<rparr>, fresh (''h2'', ''created'')],
       queue_deadLetters = []\<rparr>)
   \<and> unmarshalEvent exampleDecoders (Payload (bodyOf ''garbage'')) = Inl garbled
   \<and> iterate exampleDecoders forgeService (workerWith [(''h1'', ''garbage''), (''h2'', ''created'')]) =
        Continue (workerLeft
          [\<lparr>queued_handle = ''h1'', queued_body = ''garbage'', queued_receiveCount = 1\<rparr>,
           fresh (''h2'', ''created'')] [] [unparsed garbled])
   \<and> listen 5 exampleDecoders forgeService (workerWith [(''h1'', ''garbage''), (''h2'', ''created'')]) =
        (None, workerLeft
          [\<lparr>queued_handle = ''h1'', queued_body = ''garbage'', queued_receiveCount = 5\<rparr>,
           fresh (''h2'', ''created'')] [] (replicate 5 (unparsed garbled)))
   \<and> exhausted \<lparr>queued_handle = ''h1'', queued_body = ''garbage'', queued_receiveCount = 5\<rparr>
   \<and> ReceiveMessage
        \<lparr>queue_messages =
           [\<lparr>queued_handle = ''h1'', queued_body = ''garbage'', queued_receiveCount = 5\<rparr>,
            fresh (''h2'', ''created'')],
         queue_deadLetters = []\<rparr> =
      ReceiveMessage
        \<lparr>queue_messages = [fresh (''h2'', ''created'')],
         queue_deadLetters =
           [\<lparr>queued_handle = ''h1'', queued_body = ''garbage'', queued_receiveCount = 5\<rparr>]\<rparr>
   \<and> listen 6 exampleDecoders forgeService (workerWith [(''h1'', ''garbage''), (''h2'', ''created'')]) =
        (None, workerLeft []
          [\<lparr>queued_handle = ''h1'', queued_body = ''garbage'', queued_receiveCount = 5\<rparr>]
          (replicate 5 (unparsed garbled)))"
proof -
  let ?ev9 = "teamEvent ''added_to_repository'' (Some (hubRepo ''repo9'' False))"
  let ?ev1 = "teamEvent ''added_to_repository'' (Some (hubRepo ''repo1'' False))"
  let ?noTeam = "\<lparr>Event_Action = Some ''edited'', Event_Team = None, Event_Repo = None,
                   Event_Org = Some orgO\<rparr>"
  let ?g1 = "\<lparr>queued_handle = ''h1'', queued_body = ''garbage'', queued_receiveCount = 1\<rparr>"
  let ?g5 = "\<lparr>queued_handle = ''h1'', queued_body = ''garbage'', queued_receiveCount = 5\<rparr>"
  let ?wg = "workerWith [(''h1'', ''garbage''), (''h2'', ''created'')]"
  have h: "''h3'' \<noteq> []" "''h1'' \<noteq> []" by simp_all
  have r9: "receive exampleDecoders (worker_queue (workerWith [(''h3'', ''added repo9'')])) =
     (Inr (Some (bodyOf ''added repo9'', ''h3'')),
      \<lparr>queue_messages = [\<lparr>queued_handle = ''h3'', queued_body = ''added repo9'',
                           queued_receiveCount = 1\<rparr>],
       queue_deadLetters = []\<rparr>)" by code_simp
  have u9: "unmarshalEvent exampleDecoders (Payload (bodyOf ''added repo9'')) = Inr ?ev9"
    by code_simp
  have c9: "completeEvent ?ev9" by code_simp
  have f9: "fst (UpdateRepoAdminTopics forgeService ''o'' ''repo9'' forgeRepos) = Inl notFound"
    by code_simp
  have d9: "deleted ''h3'' (iterate exampleDecoders forgeService (workerWith [(''h3'', ''added repo9'')]))"
    using ListenForEvents_deletes_parsed_message[OF r9 h(1), THEN conjunct1, of ?ev9 forgeService]
      u9 c9 by simp
  have i9: "iterate exampleDecoders forgeService (workerWith [(''h3'', ''added repo9'')]) =
        Continue (workerLeft [] []
          [\<lparr>logEvent_level = InfoLevel, logEvent_err = None,
            logEvent_message = ''Received team update event for team repo9 on repo Foo''\<rparr>])"
    by code_simp
  have r1: "receive exampleDecoders (worker_queue (workerWith [(''h3'', ''added repo1'')])) =
     (Inr (Some (bodyOf ''added repo1'', ''h3'')),
      \<lparr>queue_messages = [\<lparr>queued_handle = ''h3'', queued_body = ''added repo1'',
                           queued_receiveCount = 1\<rparr>],
       queue_deadLetters = []\<rparr>)" by code_simp
  have u1: "unmarshalEvent exampleDecoders (Payload (bodyOf ''added repo1'')) = Inr ?ev1"
    by code_simp
  have c1: "completeEvent ?ev1" by code_simp
  have d1: "deleted ''h3'' (iterate exampleDecoders forgeService (workerWith [(''h3'', ''added repo1'')]))"
    using ListenForEvents_deletes_parsed_message[OF r1 h(1), THEN conjunct1, of ?ev1 forgeService]
      u1 c1 by simp
  have w1: "forge_written (worker_service (snd (listen 1 exampleDecoders forgeService
        (workerWith [(''h3'', ''added repo1'')])))) =
        [CallUpdateRepoTopics ''o'' ''repo1''
           [''admin-bar'', ''admin-foo'', ''blue'', ''green'', ''red'']]" by code_simp
  have rr: "receive exampleDecoders (worker_queue (workerWith [(''h3'', ''renamed'')])) =
     (Inr (Some (bodyOf ''renamed'', ''h3'')),
      \<lparr>queue_messages = [\<lparr>queued_handle = ''h3'', queued_body = ''renamed'',
                           queued_receiveCount = 1\<rparr>],
       queue_deadLetters = []\<rparr>)" by code_simp
  have ur: "unmarshalEvent exampleDecoders (Payload (bodyOf ''renamed'')) =
      Inr (teamEvent ''renamed'' None)" by code_simp
  have cr: "completeEvent (teamEvent ''renamed'' None)" by code_simp
  have dr: "deleted ''h3'' (iterate exampleDecoders forgeService (workerWith [(''h3'', ''renamed'')]))"
    using ListenForEvents_deletes_parsed_message[OF rr h(1), THEN conjunct1,
        of "teamEvent ''renamed'' None" forgeService] ur cr by simp
  have rc: "receive exampleDecoders (worker_queue (workerWith [(''h3'', ''created'')])) =
     (Inr (Some (bodyOf ''created'', ''h3'')),
      \<lparr>queue_messages = [\<lparr>queued_handle = ''h3'', queued_body = ''created'',
                           queued_receiveCount = 1\<rparr>],
       queue_deadLetters = []\<rparr>)" by code_simp
  have uc: "unmarshalEvent exampleDecoders (Payload (bodyOf ''created'')) =
      Inr (teamEvent ''created'' None)" by code_simp
  have cc: "completeEvent (teamEvent ''created'' None)" by code_simp
  have dc: "deleted ''h3'' (iterate exampleDecoders forgeService (workerWith [(''h3'', ''created'')]))"
    using ListenForEvents_deletes_parsed_message[OF rc h(1), THEN conjunct1,
        of "teamEvent ''created'' None" forgeService] uc cc by simp
  have fk: "iterate exampleDecoders forgeService (workerWith [(''h3'', ''added fork'')]) =
        Continue (workerLeft [] []
          [\<lparr>logEvent_level = WarnLevel, logEvent_err = None,
            logEvent_message = ''Skipping repo o/fork''\<rparr>])" by code_simp
  have rn: "receive exampleDecoders (worker_queue (workerWith [(''h3'', ''no team'')])) =
     (Inr (Some (bodyOf ''no team'', ''h3'')),
      \<lparr>queue_messages = [\<lparr>queued_handle = ''h3'', queued_body = ''no team'',
                           queued_receiveCount = 1\<rparr>],
       queue_deadLetters = []\<rparr>)" by code_simp
  have un: "unmarshalEvent exampleDecoders (Payload (bodyOf ''no team'')) = Inr ?noTeam"
    by code_simp
  have cn: "\<not> completeEvent ?noTeam" by code_simp
  have pn: "panicked (iterate exampleDecoders forgeService (workerWith [(''h3'', ''no team'')]))"
    using ListenForEvents_deletes_parsed_message[OF rn h(1), THEN conjunct1,
        of ?noTeam forgeService] un cn by simp
  have rg: "receive exampleDecoders (worker_queue ?wg) =
     (Inr (Some (bodyOf ''garbage'', ''h1'')),
      \<lparr>queue_messages = [?g1, fresh (''h2'', ''created'')], queue_deadLetters = []\<rparr>)"
    by code_simp
  have ug: "unmarshalEvent exampleDecoders (Payload (bodyOf ''garbage'')) = Inl garbled"
    by code_simp
  note tg = ListenForEvents_deletes_parsed_message[OF rg h(2)]
  note B = tg[THEN conjunct2, THEN conjunct2, THEN conjunct2, THEN conjunct1, rule_format]
  note D = tg[THEN conjunct2, THEN conjunct2, THEN conjunct2, THEN conjunct2, THEN conjunct1,
      rule_format]
  note E = tg[THEN conjunct2, THEN conjunct2, THEN conjunct2, THEN conjunct2, THEN conjunct2,
      rule_format]
  have eg: "Msgf ErrorLevel (Some garbled) ''Failed to unmarshal message''
      (?wg\<lparr>worker_queue :=
         \<lparr>queue_messages = [?g1, fresh (''h2'', ''created'')], queue_deadLetters = []\<rparr>\<rparr>) =
      workerLeft [?g1, fresh (''h2'', ''created'')] [] [unparsed garbled]" by code_simp
  have ig: "iterate exampleDecoders forgeService ?wg =
      Continue (workerLeft [?g1, fresh (''h2'', ''created'')] [] [unparsed garbled])"
    using B[OF ug, THEN conjunct1, of forgeService] eg by simp
  have q0: "queue_messages (worker_queue ?wg) = fresh (''h1'', ''garbage'') # [fresh (''h2'', ''created'')]"
    by code_simp
  have n5: "queued_receiveCount (fresh (''h1'', ''garbage'')) + 5 \<le> maxReceiveCount" by code_simp
  have um: "unmarshalMessage exampleDecoders (queued_body (fresh (''h1'', ''garbage''))) =
      Inr (bodyOf ''garbage'')" by code_simp
  have e5: "?wg\<lparr>worker_queue := (worker_queue ?wg)\<lparr>queue_messages :=
        (fresh (''h1'', ''garbage''))\<lparr>queued_receiveCount :=
           queued_receiveCount (fresh (''h1'', ''garbage'')) + 5\<rparr> # [fresh (''h2'', ''created'')]\<rparr>,
      worker_logged := worker_logged ?wg @ replicate 5 (unparsed garbled)\<rparr> =
      workerLeft [?g5, fresh (''h2'', ''created'')] [] (replicate 5 (unparsed garbled))"
    by code_simp
  have l5: "listen 5 exampleDecoders forgeService ?wg =
      (None, workerLeft [?g5, fresh (''h2'', ''created'')] [] (replicate 5 (unparsed garbled)))"
    using D[OF q0 n5 um ug, of forgeService] e5 by simp
  have x5: "exhausted ?g5" by code_simp
  have q5: "queue_messages \<lparr>queue_messages = [?g5, fresh (''h2'', ''created'')],
      queue_deadLetters = []\<rparr> = ?g5 # [fresh (''h2'', ''created'')]" by simp
  have m5: "ReceiveMessage
        \<lparr>queue_messages = [?g5, fresh (''h2'', ''created'')], queue_deadLetters = []\<rparr> =
      ReceiveMessage
        \<lparr>queue_messages = [fresh (''h2'', ''created'')], queue_deadLetters = [?g5]\<rparr>"
    using E[OF q5 x5] by simp
  have l6: "listen 6 exampleDecoders forgeService ?wg =
      (None, workerLeft [] [?g5] (replicate 5 (unparsed garbled)))" by code_simp
  show ?thesis
    using r9 u9 c9 f9 d9 i9 d1 w1 dr dc fk cn pn rg ug ig l5 x5 m5 l6 by (intro conjI)
qed

text \<open>
  C6 as it is written fails on the code.  A message whose payload does not parse is
  received, logged and left on the queue.  A message with an unrecognised action is
  deleted and nothing is logged: the error of the dispatch goes into an event that is
  never sent.
\<close>

theorem ListenForEvents_keeps_unparsed_message:
  "iterate exampleDecoders forgeService (workerWith [(''h1'', ''garbage''), (''h2'', ''created'')]) =
     Continue (workerLeft
       [\<lparr>queued_handle = ''h1'', queued_body = ''garbage'', queued_receiveCount = 1\<rparr>,
        \<lparr>queued_handle = ''h2'', queued_body = ''created'', queued_receiveCount = 0\<rparr>] []
       [\<lparr>logEvent_level = ErrorLevel, logEvent_err = Some (OtherError ''invalid character''),
         logEvent_message = ''Failed to unmarshal message''\<rparr>])
   \<and> \<not> deleted ''h1'' (iterate exampleDecoders forgeService
          (workerWith [(''h1'', ''garbage''), (''h2'', ''created'')]))
   \<and> unmarshalEvent exampleDecoders ''renamed'' =
        Inr \<lparr>Event_Action = Some ''renamed'', Event_Team = Some teamFoo, Event_Repo = None,
             Event_Org = Some orgO\<rparr>
   \<and> iterate exampleDecoders forgeService (workerWith [(''h3'', ''renamed'')]) =
     Continue (workerLeft [] [] [])"
proof -
  let ?wg = "workerWith [(''h1'', ''garbage''), (''h2'', ''created'')]"
  have 1: "iterate exampleDecoders forgeService ?wg =
     Continue (workerLeft
       [\<lparr>queued_handle = ''h1'', queued_body = ''garbage'', queued_receiveCount = 1\<rparr>,
        \<lparr>queued_handle = ''h2'', queued_body = ''created'', queued_receiveCount = 0\<rparr>] []
       [\<lparr>logEvent_level = ErrorLevel, logEvent_err = Some (OtherError ''invalid character''),
         logEvent_message = ''Failed to unmarshal message''\<rparr>])" by code_simp
  have 2: "\<not> deleted ''h1'' (iterate exampleDecoders forgeService ?wg)" by code_simp
  have 3: "unmarshalEvent exampleDecoders ''renamed'' =
        Inr \<lparr>Event_Action = Some ''renamed'', Event_Team = Some teamFoo, Event_Repo = None,
             Event_Org = Some orgO\<rparr>" by code_simp
  have 4: "iterate exampleDecoders forgeService (workerWith [(''h3'', ''renamed'')]) =
     Continue (workerLeft [] [] [])" by code_simp
  from 1 2 3 4 show ?thesis by (intro conjI)
qed

end
